theory Spec2Isabelle
  imports Complex_Main "HOL-Library.Char_ord" "HOL-Library.List_Lexorder"
    "HOL-Library.Product_Lexorder" "HOL-Library.Log_Nat"
begin

section \<open>JavaScript numbers\<close>

text \<open>
  A JavaScript \<open>number\<close> is an IEEE 754 double: a finite value, one of the two infinities,
  or NaN.  A finite double is the real it stands for, and the result of every arithmetic
  operation is the exact result rounded to the nearest double, ties to the even
  significand, or an infinity when the rounded result is beyond the largest double.  Only
  the sign of zero is outside the model.  A value of type \<open>number | null\<close> is a
  \<open>jsnum option\<close>, \<open>None\<close> being \<open>null\<close>.
\<close>

datatype jsnum = Fin real | PInf | NInf | NaN

text \<open>Rounding a real to the nearest integer, a tie to the even one.\<close>

definition rne :: "real \<Rightarrow> int" where
  "rne q =
     (let f = \<lfloor>q\<rfloor>; d = q - of_int f
      in if d < 1 / 2 then f else if 1 / 2 < d then f + 1 else if even f then f else f + 1)"

text \<open>The exponent \<open>k\<close> with \<open>2 ^ k \<le> a < 2 ^ (k + 1)\<close>, for a positive \<open>a\<close>.\<close>

definition ilog2 :: "real \<Rightarrow> int" where
  "ilog2 a = (if 1 \<le> a then bitlen \<lfloor>a\<rfloor> - 1 else - bitlen (\<lceil>1 / a\<rceil> - 1))"

definition pow2 :: "int \<Rightarrow> real" where
  "pow2 e = (if 0 \<le> e then 2 ^ nat e else 1 / 2 ^ nat (- e))"

text \<open>
  Rounding to a double: a significand of 53 bits, so the last place of a value in
  \<open>[2 ^ k, 2 ^ (k + 1))\<close> is \<open>2 ^ (k - 52)\<close>, and never below \<open>2 ^ - 1074\<close>, the smallest
  subnormal; a rounded magnitude of \<open>2 ^ 1024\<close> or more is an infinity.
\<close>

definition round_double :: "real \<Rightarrow> jsnum" where
  "round_double x =
     (if x = 0 then Fin 0
      else
        let a = \<bar>x\<bar>;
            e = max (ilog2 a - 52) (- 1074);
            r = of_int (rne (a / pow2 e)) * pow2 e
        in if pow2 1024 \<le> r then (if 0 < x then PInf else NInf)
           else Fin (if 0 < x then r else - r))"

text \<open>
  The same rounding, one step after the other: the nearest integer from the floor, the
  exponent of the last place, and the significand.
\<close>

definition rne_floor :: "real \<Rightarrow> int \<Rightarrow> int" where
  "rne_floor q f =
     (if q - of_int f < 1 / 2 then f
      else if 1 / 2 < q - of_int f then f + 1
      else if even f then f else f + 1)"

definition round_sig :: "real \<Rightarrow> int \<Rightarrow> int \<Rightarrow> jsnum" where
  "round_sig x e n =
     (if 971 < e \<or> e = 971 \<and> 2 ^ 53 \<le> n then (if 0 < x then PInf else NInf)
      else Fin (if 0 < x then of_int n * pow2 e else - (of_int n * pow2 e)))"

definition round_exp :: "real \<Rightarrow> int \<Rightarrow> jsnum" where
  "round_exp x e = round_sig x e (rne (\<bar>x\<bar> / pow2 e))"

fun isFinite :: "jsnum \<Rightarrow> bool" where
  "isFinite (Fin x) = True"
| "isFinite PInf = False"
| "isFinite NInf = False"
| "isFinite NaN = False"

fun jneg :: "jsnum \<Rightarrow> jsnum" where
  "jneg (Fin x) = Fin (- x)"
| "jneg PInf = NInf"
| "jneg NInf = PInf"
| "jneg NaN = NaN"

fun jadd :: "jsnum \<Rightarrow> jsnum \<Rightarrow> jsnum" where
  "jadd (Fin x) (Fin y) = round_double (x + y)"
| "jadd NaN b = NaN"
| "jadd a NaN = NaN"
| "jadd PInf NInf = NaN"
| "jadd NInf PInf = NaN"
| "jadd PInf b = PInf"
| "jadd a PInf = PInf"
| "jadd NInf b = NInf"
| "jadd a NInf = NInf"

definition jsub :: "jsnum \<Rightarrow> jsnum \<Rightarrow> jsnum" where
  "jsub a b = jadd a (jneg b)"

fun jmul :: "jsnum \<Rightarrow> jsnum \<Rightarrow> jsnum" where
  "jmul (Fin x) (Fin y) = round_double (x * y)"
| "jmul NaN b = NaN"
| "jmul a NaN = NaN"
| "jmul (Fin x) PInf = (if x = 0 then NaN else if 0 < x then PInf else NInf)"
| "jmul (Fin x) NInf = (if x = 0 then NaN else if 0 < x then NInf else PInf)"
| "jmul PInf (Fin y) = (if y = 0 then NaN else if 0 < y then PInf else NInf)"
| "jmul NInf (Fin y) = (if y = 0 then NaN else if 0 < y then NInf else PInf)"
| "jmul PInf PInf = PInf"
| "jmul PInf NInf = NInf"
| "jmul NInf PInf = NInf"
| "jmul NInf NInf = PInf"

fun jdiv :: "jsnum \<Rightarrow> jsnum \<Rightarrow> jsnum" where
  "jdiv (Fin x) (Fin y) =
     (if y \<noteq> 0 then round_double (x / y)
      else if x = 0 then NaN else if 0 < x then PInf else NInf)"
| "jdiv NaN b = NaN"
| "jdiv a NaN = NaN"
| "jdiv (Fin x) PInf = Fin 0"
| "jdiv (Fin x) NInf = Fin 0"
| "jdiv PInf (Fin y) = (if 0 \<le> y then PInf else NInf)"
| "jdiv NInf (Fin y) = (if 0 \<le> y then NInf else PInf)"
| "jdiv PInf PInf = NaN"
| "jdiv PInf NInf = NaN"
| "jdiv NInf PInf = NaN"
| "jdiv NInf NInf = NaN"

fun jabs :: "jsnum \<Rightarrow> jsnum" where
  "jabs (Fin x) = Fin \<bar>x\<bar>"
| "jabs PInf = PInf"
| "jabs NInf = PInf"
| "jabs NaN = NaN"

fun jsqrt :: "jsnum \<Rightarrow> jsnum" where
  "jsqrt (Fin x) = (if x < 0 then NaN else round_double (sqrt x))"
| "jsqrt PInf = PInf"
| "jsqrt NInf = NaN"
| "jsqrt NaN = NaN"

text \<open>The comparisons \<open>a < b\<close>, \<open>a > b\<close> and \<open>a === b\<close>: each is false when NaN is involved.\<close>

fun jlt :: "jsnum \<Rightarrow> jsnum \<Rightarrow> bool" where
  "jlt (Fin x) (Fin y) = (x < y)"
| "jlt NaN b = False"
| "jlt a NaN = False"
| "jlt a NInf = False"
| "jlt PInf b = False"
| "jlt NInf b = True"
| "jlt a PInf = True"

definition jgt :: "jsnum \<Rightarrow> jsnum \<Rightarrow> bool" where
  "jgt a b = jlt b a"

fun jeq :: "jsnum \<Rightarrow> jsnum \<Rightarrow> bool" where
  "jeq (Fin x) (Fin y) = (x = y)"
| "jeq PInf PInf = True"
| "jeq NInf NInf = True"
| "jeq a b = False"

text \<open>\<open>null\<close> used as an operand of arithmetic is converted to \<open>0\<close>.\<close>

fun to_number :: "jsnum option \<Rightarrow> jsnum" where
  "to_number None = Fin 0"
| "to_number (Some v) = v"

text \<open>
  Reading an array beyond its end gives \<open>undefined\<close>, which is not \<open>null\<close>, is not finite,
  and turns every arithmetic operation into NaN: in the functions below it behaves as an
  element NaN would.
\<close>

definition js_at :: "jsnum option list \<Rightarrow> nat \<Rightarrow> jsnum option" where
  "js_at xs i = (if i < length xs then xs ! i else Some NaN)"

section \<open>Loops that fill an output array\<close>

text \<open>
  Every indicator allocates \<open>out = new Array(n).fill(null)\<close> and runs
  \<open>for (i = a; i < n; i++)\<close>; iteration \<open>i\<close> updates the loop's variables and either
  assigns \<open>out[i]\<close> or leaves it (\<open>continue\<close>).  The body is a function from the index and
  the variables to the new variables and the value assigned, if any.
\<close>

definition loop_step ::
  "(nat \<Rightarrow> 's \<Rightarrow> 's \<times> 'a option) \<Rightarrow> 'a option list \<times> 's \<Rightarrow> nat \<Rightarrow> 'a option list \<times> 's" where
  "loop_step body os i =
     (case os of (out, s) \<Rightarrow>
        (case body i s of
           (s', None) \<Rightarrow> (out, s')
         | (s', Some v) \<Rightarrow> (out[i := Some v], s')))"

definition for_loop ::
  "nat \<Rightarrow> nat \<Rightarrow> (nat \<Rightarrow> 's \<Rightarrow> 's \<times> 'a option) \<Rightarrow> 's \<Rightarrow> 'a option list" where
  "for_loop a n body s0 = fst (foldl (loop_step body) (replicate n None, s0) [a..<n])"

text \<open>The loop's variables before iteration \<open>i\<close>.\<close>

definition loop_vars :: "nat \<Rightarrow> nat \<Rightarrow> (nat \<Rightarrow> 's \<Rightarrow> 's \<times> 'a option) \<Rightarrow> 's \<Rightarrow> 's" where
  "loop_vars a i body s0 = foldl (\<lambda>s j. fst (body j s)) s0 [a..<i]"

section \<open>Indicators\<close>

subsection \<open>sma\<close>

definition sma_body ::
  "jsnum option list \<Rightarrow> nat \<Rightarrow> nat \<Rightarrow> jsnum \<times> nat \<Rightarrow> (jsnum \<times> nat) \<times> jsnum option" where
  "sma_body values period i st =
     (case st of (sm, count) \<Rightarrow>
        (case values ! i of
           None \<Rightarrow> ((Fin 0, 0), None)
         | Some v \<Rightarrow>
             if \<not> isFinite v then ((Fin 0, 0), None)
             else
               let sum1 = jadd sm v;
                   count1 = count + 1;
                   sum2 = (if period < count1
                           then jsub sum1 (to_number (values ! (i - period))) else sum1);
                   count2 = (if period < count1 then period else count1)
               in ((sum2, count2),
                   if count2 = period then Some (jdiv sum2 (Fin (real period))) else None)))"

definition sma :: "jsnum option list \<Rightarrow> nat \<Rightarrow> jsnum option list" where
  "sma values period = for_loop 0 (length values) (sma_body values period) (Fin 0, 0)"

subsection \<open>rsi\<close>

text \<open>The seeding loop \<open>for (k = 1; k <= period; k++)\<close> with its \<open>break\<close>.\<close>

fun rsi_seed :: "jsnum option list \<Rightarrow> nat list \<Rightarrow> jsnum \<times> jsnum \<Rightarrow> jsnum \<times> jsnum" where
  "rsi_seed values [] gl = gl"
| "rsi_seed values (k # ks) gl =
     (case (values ! (k - 1), values ! k) of
        (Some a, Some b) \<Rightarrow>
          (let d = jsub b a
           in rsi_seed values ks
                (jadd (fst gl) (if jgt d (Fin 0) then d else Fin 0),
                 jadd (snd gl) (if jlt d (Fin 0) then jneg d else Fin 0)))
      | _ \<Rightarrow> (Fin 0, Fin 0))"

definition rsi_value :: "jsnum \<Rightarrow> jsnum \<Rightarrow> jsnum" where
  "rsi_value avgGain avgLoss =
     (if jeq avgLoss (Fin 0) then Fin 100
      else jsub (Fin 100) (jdiv (Fin 100) (jadd (Fin 1) (jdiv avgGain avgLoss))))"

definition rsi_body ::
  "jsnum option list \<Rightarrow> nat \<Rightarrow> nat \<Rightarrow> jsnum option \<times> jsnum option
     \<Rightarrow> (jsnum option \<times> jsnum option) \<times> jsnum option" where
  "rsi_body values period i st =
     (case (values ! (i - 1), values ! i) of
        (Some prev, Some cur) \<Rightarrow>
          (let change = jsub cur prev;
               gain = (if jgt change (Fin 0) then change else Fin 0);
               loss = (if jlt change (Fin 0) then jneg change else Fin 0)
           in if i < period then (st, None)
              else
                let st' =
                  (if i = period then
                     (let gl = rsi_seed values [1..<period + 1] (Fin 0, Fin 0)
                      in (Some (jdiv (fst gl) (Fin (real period))),
                          Some (jdiv (snd gl) (Fin (real period)))))
                   else
                     (case st of
                        (Some avgGain, Some avgLoss) \<Rightarrow>
                          (Some (jdiv (jadd (jmul avgGain (Fin (real period - 1))) gain)
                                   (Fin (real period))),
                           Some (jdiv (jadd (jmul avgLoss (Fin (real period - 1))) loss)
                                   (Fin (real period))))
                      | _ \<Rightarrow> st))
                in (case st' of
                      (Some avgGain, Some avgLoss) \<Rightarrow> (st', Some (rsi_value avgGain avgLoss))
                    | _ \<Rightarrow> (st', None)))
      | _ \<Rightarrow> ((None, None), None))"

definition rsi :: "jsnum option list \<Rightarrow> nat \<Rightarrow> jsnum option list" where
  "rsi values period = for_loop 1 (length values) (rsi_body values period) (None, None)"

subsection \<open>ez\<close>

definition ez_series :: "jsnum option list \<Rightarrow> jsnum option list \<Rightarrow> jsnum option list" where
  "ez_series close sma20Arr =
     map (\<lambda>i. case (close ! i, js_at sma20Arr i) of
                 (Some c, Some m) \<Rightarrow>
                   if \<not> isFinite c \<or> \<not> isFinite m \<or> jeq m (Fin 0) then None
                   else Some (jmul (Fin 100) (jdiv (jsub c m) m))
               | _ \<Rightarrow> None)
         [0..<length close]"

subsection \<open>stddev\<close>

definition stddev_body ::
  "jsnum option list \<Rightarrow> nat \<Rightarrow> nat \<Rightarrow> jsnum list \<Rightarrow> jsnum list \<times> jsnum option" where
  "stddev_body values period i window =
     (case values ! i of
        None \<Rightarrow> ([], None)
      | Some v \<Rightarrow>
          if \<not> isFinite v then ([], None)
          else
            let w1 = window @ [v];
                w2 = (if period < length w1 then tl w1 else w1)
            in (w2,
                if length w2 = period then
                  (let mean = jdiv (foldl jadd (Fin 0) w2) (Fin (real period));
                       variance =
                         jdiv (foldl (\<lambda>a b. jadd a (jmul (jsub b mean) (jsub b mean))) (Fin 0) w2)
                           (Fin (real period))
                   in Some (jsqrt variance))
                else None))"

definition stddev :: "jsnum option list \<Rightarrow> nat \<Rightarrow> jsnum option list" where
  "stddev values period = for_loop 0 (length values) (stddev_body values period) []"

subsection \<open>ema\<close>

text \<open>The seeding loop \<open>for (j = i - period + 1; j <= i; j++)\<close>; \<open>None\<close> is \<open>ok = false\<close>.\<close>

fun ema_seed :: "jsnum option list \<Rightarrow> nat list \<Rightarrow> jsnum \<Rightarrow> jsnum option" where
  "ema_seed values [] sm = Some sm"
| "ema_seed values (j # js) sm =
     (case values ! j of None \<Rightarrow> None | Some w \<Rightarrow> ema_seed values js (jadd sm w))"

definition ema_body ::
  "jsnum option list \<Rightarrow> nat \<Rightarrow> nat \<Rightarrow> jsnum option \<Rightarrow> jsnum option \<times> jsnum option" where
  "ema_body values period i prev =
     (let k = jdiv (Fin 2) (Fin (real period + 1))
      in case values ! i of
           None \<Rightarrow> (None, None)
         | Some v \<Rightarrow>
             if \<not> isFinite v then (None, None)
             else
               (case prev of
                  None \<Rightarrow>
                    if period \<le> i + 1 then
                      (case ema_seed values [i + 1 - period..<i + 1] (Fin 0) of
                         None \<Rightarrow> (None, None)
                       | Some sm \<Rightarrow>
                           (Some (jdiv sm (Fin (real period))),
                            Some (jdiv sm (Fin (real period)))))
                    else (None, None)
                | Some p \<Rightarrow>
                    (Some (jadd (jmul v k) (jmul p (jsub (Fin 1) k))),
                     Some (jadd (jmul v k) (jmul p (jsub (Fin 1) k))))))"

definition ema :: "jsnum option list \<Rightarrow> nat \<Rightarrow> jsnum option list" where
  "ema values period = for_loop 0 (length values) (ema_body values period) None"

subsection \<open>macd12269\<close>

definition diff_series :: "jsnum option list \<Rightarrow> jsnum option list \<Rightarrow> nat \<Rightarrow> jsnum option list" where
  "diff_series xs ys n =
     map (\<lambda>i. case (js_at xs i, js_at ys i) of
                 (Some a, Some b) \<Rightarrow> Some (jsub a b)
               | _ \<Rightarrow> None)
         [0..<n]"

definition macd12269 ::
  "jsnum option list \<Rightarrow> jsnum option list \<times> jsnum option list \<times> jsnum option list" where
  "macd12269 values =
     (let e12 = ema values 12;
          e26 = ema values 26;
          macd = diff_series e12 e26 (length values);
          macdSignal = ema macd 9;
          macdHist = diff_series macd macdSignal (length macd)
      in (macd, macdSignal, macdHist))"

subsection \<open>cci\<close>

text \<open>The typical price series \<open>tp\<close>, computed in the same way by \<open>cci\<close> and \<open>mfi\<close>.\<close>

definition typical_price ::
  "jsnum option list \<Rightarrow> jsnum option list \<Rightarrow> jsnum option list \<Rightarrow> jsnum option list" where
  "typical_price high low close =
     map (\<lambda>i. case (js_at high i, js_at low i, close ! i) of
                 (Some h, Some l, Some c) \<Rightarrow> Some (jdiv (jadd (jadd h l) c) (Fin 3))
               | _ \<Rightarrow> None)
         [0..<length close]"

text \<open>The loop summing the absolute deviations, with its \<open>break\<close> on a \<open>null\<close>.\<close>

fun cci_sumDev :: "jsnum option list \<Rightarrow> jsnum \<Rightarrow> nat list \<Rightarrow> jsnum \<Rightarrow> jsnum" where
  "cci_sumDev tp m [] sumDev = sumDev"
| "cci_sumDev tp m (j # js) sumDev =
     (case tp ! j of
        None \<Rightarrow> Fin 0
      | Some w \<Rightarrow> cci_sumDev tp m js (jadd sumDev (jabs (jsub w m))))"

definition cci_body ::
  "jsnum option list \<Rightarrow> jsnum option list \<Rightarrow> nat \<Rightarrow> nat \<Rightarrow> unit \<Rightarrow> unit \<times> jsnum option" where
  "cci_body tp tpSma period i u =
     (if i + 1 < period then ((), None)
      else
        (case (tp ! i, tpSma ! i) of
           (Some t, Some m) \<Rightarrow>
             (let sumDev = cci_sumDev tp m [i + 1 - period..<i + 1] (Fin 0);
                  meanDev = jdiv sumDev (Fin (real period))
              in if jeq meanDev (Fin 0) then ((), None)
                 else ((), Some (jdiv (jsub t m) (jmul (round_double (15 / 1000)) meanDev))))
         | _ \<Rightarrow> ((), None)))"

definition cci ::
  "jsnum option list \<Rightarrow> jsnum option list \<Rightarrow> jsnum option list \<Rightarrow> nat \<Rightarrow> jsnum option list" where
  "cci high low close period =
     (let tp = typical_price high low close;
          tpSma = sma tp period
      in for_loop 0 (length tp) (cci_body tp tpSma period) ())"

subsection \<open>mfi\<close>

definition raw_money_flow :: "jsnum option list \<Rightarrow> jsnum option list \<Rightarrow> jsnum option list" where
  "raw_money_flow tp volume =
     map (\<lambda>i. case (tp ! i, js_at volume i) of
                 (Some t, Some v) \<Rightarrow> Some (jmul t v)
               | _ \<Rightarrow> None)
         [0..<length tp]"

text \<open>The loop over the window summing positive and negative flow, with its \<open>break\<close>.\<close>

fun mfi_flows ::
  "jsnum option list \<Rightarrow> jsnum option list \<Rightarrow> nat list \<Rightarrow> jsnum \<times> jsnum \<Rightarrow> jsnum \<times> jsnum" where
  "mfi_flows tp rmf [] pn = pn"
| "mfi_flows tp rmf (j # js) pn =
     (case (tp ! j, tp ! (j - 1), rmf ! j) of
        (Some t, Some tPrev, Some f) \<Rightarrow>
          mfi_flows tp rmf js
            (if jgt t tPrev then (jadd (fst pn) f, snd pn)
             else if jlt t tPrev then (fst pn, jadd (snd pn) f)
             else pn)
      | _ \<Rightarrow> (Fin 0, Fin 0))"

definition mfi_value :: "jsnum \<Rightarrow> jsnum \<Rightarrow> jsnum option" where
  "mfi_value pos neg =
     (if jeq pos (Fin 0) \<and> jeq neg (Fin 0) then None
      else if jeq neg (Fin 0) then Some (Fin 100)
      else Some (jsub (Fin 100) (jdiv (Fin 100) (jadd (Fin 1) (jdiv pos neg)))))"

definition mfi_body ::
  "jsnum option list \<Rightarrow> jsnum option list \<Rightarrow> nat \<Rightarrow> nat \<Rightarrow> unit \<Rightarrow> unit \<times> jsnum option" where
  "mfi_body tp rmf period i u =
     (if i < period then ((), None)
      else
        (let pn = mfi_flows tp rmf [i + 1 - period..<i + 1] (Fin 0, Fin 0)
         in ((), mfi_value (fst pn) (snd pn))))"

definition mfi ::
  "jsnum option list \<Rightarrow> jsnum option list \<Rightarrow> jsnum option list \<Rightarrow> jsnum option list \<Rightarrow> nat
     \<Rightarrow> jsnum option list" where
  "mfi high low close volume period =
     (let tp = typical_price high low close;
          rmf = raw_money_flow tp volume
      in for_loop 1 (length tp) (mfi_body tp rmf period) ())"

section \<open>The table of end-of-day rows\<close>

text \<open>
  The fourteen indicator columns, which are also the fields of the object that
  \<open>getTradingIndicators\<close> returns.  The type parameter is the type of a \<open>DOUBLE PRECISION\<close>
  value: \<open>jsnum\<close> where the indicator code computes it, \<open>real\<close> in the query module, which
  is modelled for stored values that are finite.
\<close>

record 'n indicators =
  rsi14 :: "'n option"
  macd :: "'n option"
  macdSignal :: "'n option"
  macdHist :: "'n option"
  cci20 :: "'n option"
  mfi14 :: "'n option"
  turnover10 :: "'n option"
  sma20 :: "'n option"
  sma50 :: "'n option"
  sma200 :: "'n option"
  ez :: "'n option"
  stddev20 :: "'n option"
  upperBollingerBand20 :: "'n option"
  lowerBollingerBand20 :: "'n option"

text \<open>
  A row of the table \<open>TaseSecuritiesEndOfDayTradingData\<close>: the indicator columns and the
  ingested columns.  A \<open>DATE\<close> is a day number, \<open>BIGINT\<close> and \<open>INTEGER\<close> are \<open>int\<close>, a
  nullable column is an \<open>option\<close>.  The table has a unique index on (symbol, tradeDate).
\<close>

record 'n eod_row = "'n indicators" +
  row_id :: string
  tradeDate :: int
  firstTradingDate :: "int option"
  isin :: string
  change :: "'n option"
  securityId :: int
  turnover :: "int option"
  closingPrice :: "'n option"
  basePrice :: "'n option"
  openingPrice :: "'n option"
  high :: "'n option"
  low :: "'n option"
  changeValue :: "'n option"
  transactionsNumber :: "int option"
  volume :: "int option"
  marketCap :: "int option"
  minContPhaseAmount :: "int option"
  listedCapital :: "int option"
  adjustedClosingPrice :: "'n option"
  exCode :: "string option"
  adjustmentCoefficient :: "'n option"
  symbol :: string
  marketType :: "string option"

datatype error = NoTradingData | RecordNotFound

section \<open>The refresh job\<close>

definition LOOKBACK_DAYS :: int where
  "LOOKBACK_DAYS = 450"

text \<open>\<open>arr[rows.length - 1] ?? null\<close>: the last element, \<open>null\<close> for an empty array.\<close>

definition last_or_null :: "'a option list \<Rightarrow> 'a option" where
  "last_or_null xs = (if xs = [] then None else last xs)"

definition bollinger ::
  "(jsnum \<Rightarrow> jsnum \<Rightarrow> jsnum) \<Rightarrow> jsnum option list \<Rightarrow> jsnum option list \<Rightarrow> jsnum option list" where
  "bollinger f stddev20Arr sma20Arr =
     map (\<lambda>i. case (stddev20Arr ! i, js_at sma20Arr i) of
                 (Some sd, Some m) \<Rightarrow> Some (f m (jmul (Fin 2) sd))
               | _ \<Rightarrow> None)
         [0..<length stddev20Arr]"

definition bigint_to_number :: "int option \<Rightarrow> jsnum option" where
  "bigint_to_number v = map_option (\<lambda>n. round_double (real_of_int n)) v"

text \<open>
  The indicators of one symbol from the five series read from its rows, oldest first.
\<close>

definition indicators_of_series ::
  "jsnum option list \<Rightarrow> jsnum option list \<Rightarrow> jsnum option list \<Rightarrow> jsnum option list
     \<Rightarrow> jsnum option list \<Rightarrow> jsnum indicators" where
  "indicators_of_series close highArr lowArr volumeArr turnoverArr =
     (let rsi14Arr = rsi close 14;
          m = macd12269 close;
          cci20Arr = cci highArr lowArr close 20;
          mfi14Arr = mfi highArr lowArr close volumeArr 14;
          turnover10Arr = sma turnoverArr 10;
          sma20Arr = sma close 20;
          sma50Arr = sma close 50;
          sma200Arr = sma close 200;
          ezArr = ez_series close sma20Arr;
          stddev20Arr = stddev close 20;
          upperBB20 = bollinger jadd stddev20Arr sma20Arr;
          lowerBB20 = bollinger jsub stddev20Arr sma20Arr
      in \<lparr> rsi14 = last_or_null rsi14Arr,
           macd = last_or_null (fst m),
           macdSignal = last_or_null (fst (snd m)),
           macdHist = last_or_null (snd (snd m)),
           cci20 = last_or_null cci20Arr,
           mfi14 = last_or_null mfi14Arr,
           turnover10 = last_or_null turnover10Arr,
           sma20 = last_or_null sma20Arr,
           sma50 = last_or_null sma50Arr,
           sma200 = last_or_null sma200Arr,
           ez = last_or_null ezArr,
           stddev20 = last_or_null stddev20Arr,
           upperBollingerBand20 = last_or_null upperBB20,
           lowerBollingerBand20 = last_or_null lowerBB20 \<rparr>)"

text \<open>
  The query of \<open>getTradingIndicators\<close>: the rows of the symbol with
  \<open>fromDate \<le> tradeDate \<le> date\<close>, ordered by tradeDate.
\<close>

definition window_rows :: "jsnum eod_row list \<Rightarrow> string \<Rightarrow> int \<Rightarrow> int \<Rightarrow> jsnum eod_row list" where
  "window_rows db symb date fromDate =
     sort_key tradeDate
       (filter (\<lambda>r. symbol r = symb \<and> fromDate \<le> tradeDate r \<and> tradeDate r \<le> date) db)"

definition getTradingIndicators ::
  "jsnum eod_row list \<Rightarrow> string \<Rightarrow> int \<Rightarrow> int \<Rightarrow> jsnum indicators" where
  "getTradingIndicators db symb date fromDate =
     (let rows = window_rows db symb date fromDate
      in indicators_of_series
           (map closingPrice rows) (map high rows) (map low rows)
           (map (\<lambda>r. bigint_to_number (volume r)) rows)
           (map (\<lambda>r. bigint_to_number (turnover r)) rows))"

text \<open>
  \<open>prisma.update\<close> with \<open>where: {unique_symbol_tradeDate}\<close> and \<open>data: indicators\<close>: the
  fourteen named columns of the row with that key are set; the call fails when there is
  no such row.
\<close>

definition set_indicators :: "jsnum indicators \<Rightarrow> jsnum eod_row \<Rightarrow> jsnum eod_row" where
  "set_indicators ind r =
     r\<lparr> rsi14 := rsi14 ind, macd := macd ind, macdSignal := macdSignal ind,
        macdHist := macdHist ind, cci20 := cci20 ind, mfi14 := mfi14 ind,
        turnover10 := turnover10 ind, sma20 := sma20 ind, sma50 := sma50 ind,
        sma200 := sma200 ind, ez := ez ind, stddev20 := stddev20 ind,
        upperBollingerBand20 := upperBollingerBand20 ind,
        lowerBollingerBand20 := lowerBollingerBand20 ind \<rparr>"

definition update_row ::
  "jsnum eod_row list \<Rightarrow> string \<Rightarrow> int \<Rightarrow> jsnum indicators \<Rightarrow> error + jsnum eod_row list" where
  "update_row db symb date ind =
     (if list_ex (\<lambda>r. symbol r = symb \<and> tradeDate r = date) db
      then Inr (map (\<lambda>r. if symbol r = symb \<and> tradeDate r = date then set_indicators ind r else r) db)
      else Inl RecordNotFound)"

text \<open>The loop \<open>for (const symbol of symbols)\<close>; the first failing call rejects the job.\<close>

fun update_symbols ::
  "int \<Rightarrow> int \<Rightarrow> string list \<Rightarrow> jsnum eod_row list \<times> nat \<Rightarrow> error + jsnum eod_row list \<times> nat" where
  "update_symbols date fromDate [] st = Inr st"
| "update_symbols date fromDate (symb # symbols) st =
     (case update_row (fst st) symb date (getTradingIndicators (fst st) symb date fromDate) of
        Inl e \<Rightarrow> Inl e
      | Inr db' \<Rightarrow> update_symbols date fromDate symbols (db', snd st + 1))"

definition updateTradingDayIndicators ::
  "jsnum eod_row list \<Rightarrow> int \<Rightarrow> string \<Rightarrow> error + jsnum eod_row list \<times> nat" where
  "updateTradingDayIndicators db date mt =
     (let fromDate = date - LOOKBACK_DAYS;
          rows = filter (\<lambda>r. tradeDate r = date \<and> marketType r = Some mt) db;
          symbols = map symbol rows
      in update_symbols date fromDate symbols (db, 0))"

section \<open>The query module\<close>

text \<open>
  The queries read the table with stored values that are finite, so a \<open>DOUBLE PRECISION\<close>
  value is a \<open>real\<close> here.  A comparison in a \<open>WHERE\<close> clause keeps a row only when it is
  true; on a \<open>NULL\<close> operand it is not.
\<close>

definition sql_ge :: "real option \<Rightarrow> real \<Rightarrow> bool" where
  "sql_ge x c = (case x of None \<Rightarrow> False | Some v \<Rightarrow> c \<le> v)"

definition sql_between :: "real option \<Rightarrow> real \<Rightarrow> real \<Rightarrow> bool" where
  "sql_between x a b = (case x of None \<Rightarrow> False | Some v \<Rightarrow> a \<le> v \<and> v \<le> b)"

definition sql_gt :: "real option \<Rightarrow> real option \<Rightarrow> bool" where
  "sql_gt x y = (case (x, y) of (Some a, Some b) \<Rightarrow> b < a | _ \<Rightarrow> False)"

definition getLastTradeDate :: "real eod_row list \<Rightarrow> string \<Rightarrow> int option \<Rightarrow> error + int" where
  "getLastTradeDate db mt before =
     (case sort_key (\<lambda>r. - tradeDate r)
             (filter (\<lambda>r. marketType r = Some mt \<and>
                           (case before of None \<Rightarrow> True | Some b \<Rightarrow> tradeDate r \<le> b)) db) of
        [] \<Rightarrow> Inl NoTradingData
      | r # rs \<Rightarrow> Inr (tradeDate r))"

text \<open>\<open>tradeDate ? new Date(tradeDate) : await getLastTradeDate(marketType)\<close>\<close>

definition query_date :: "real eod_row list \<Rightarrow> string \<Rightarrow> int option \<Rightarrow> error + int" where
  "query_date db mt tradeDate_arg =
     (case tradeDate_arg of Some d \<Rightarrow> Inr d | None \<Rightarrow> getLastTradeDate db mt None)"

subsection \<open>fetchMarketSpirit\<close>

datatype spirit = Defense | Selective | Attack

record MarketSpiritResponse =
  ms_tradeDate :: int
  ms_marketType :: string
  score :: "spirit option"
  adv :: "int option"
  adLine :: "int option"

text \<open>\<open>(s.change ?? 0) > 0\<close> and \<open>(s.change ?? 0) < 0\<close>\<close>

definition is_advancing :: "real eod_row \<Rightarrow> bool" where
  "is_advancing s = (0 < (case change s of None \<Rightarrow> 0 | Some c \<Rightarrow> c))"

definition is_declining :: "real eod_row \<Rightarrow> bool" where
  "is_declining s = ((case change s of None \<Rightarrow> 0 | Some c \<Rightarrow> c) < 0)"

text \<open>
  The raw query: for every tradeDate between \<open>fromDate\<close> and \<open>date\<close> that has rows of the
  market type, the number of rows with \<open>change > 0\<close> minus the number with \<open>change < 0\<close>,
  ordered by tradeDate.
\<close>

definition advHistory :: "real eod_row list \<Rightarrow> string \<Rightarrow> int \<Rightarrow> int \<Rightarrow> int list" where
  "advHistory db mt fromDate date =
     (let rows = filter (\<lambda>r. marketType r = Some mt \<and> fromDate \<le> tradeDate r \<and> tradeDate r \<le> date) db;
          dates = sort (remdups (map tradeDate rows))
      in map (\<lambda>d. let g = filter (\<lambda>r. tradeDate r = d) rows
                   in int (length (filter (\<lambda>r. sql_gt (change r) (Some 0)) g)) -
                      int (length (filter (\<lambda>r. sql_gt (Some 0) (change r)) g)))
           dates)"

text \<open>\<open>stocks.filter(p).length / total > 0.5\<close>\<close>

definition majority :: "('a \<Rightarrow> bool) \<Rightarrow> 'a list \<Rightarrow> bool" where
  "majority p stocks = (1 / 2 < real (length (filter p stocks)) / real (length stocks))"

text \<open>
  \<open>(s.ez ?? -Infinity) > 0\<close>: a \<open>null\<close> is never above zero; \<open>(s.rsi14 ?? 0) > 50\<close> likewise.
\<close>

definition is_above :: "real \<Rightarrow> real option \<Rightarrow> bool" where
  "is_above c x = (case x of None \<Rightarrow> False | Some v \<Rightarrow> c < v)"

definition scorePoints :: "int \<Rightarrow> int \<Rightarrow> real eod_row list \<Rightarrow> nat" where
  "scorePoints adv_v adLine_v stocks =
     (let p0 = 0;
          p1 = (if 0 < adv_v then p0 + 1 else p0);
          p2 = (if 0 < adLine_v then p1 + 1 else p1);
          p3 = (if majority (\<lambda>s. is_above 0 (ez s)) stocks then p2 + 1 else p2);
          p4 = (if majority (\<lambda>s. is_above 50 (rsi14 s)) stocks then p3 + 1 else p3);
          p5 = (if majority (\<lambda>s. is_above 0 (macdHist s)) stocks then p4 + 1 else p4);
          p6 = (if majority (\<lambda>s. is_above 0 (cci20 s)) stocks then p5 + 1 else p5)
      in p6)"

definition classify :: "nat \<Rightarrow> spirit" where
  "classify points = (if points \<le> 2 then Defense else if points \<le> 4 then Selective else Attack)"

definition fetchMarketSpirit ::
  "real eod_row list \<Rightarrow> string \<Rightarrow> int option \<Rightarrow> error + MarketSpiritResponse" where
  "fetchMarketSpirit db mt tradeDate_arg =
     (case query_date db mt tradeDate_arg of
        Inl e \<Rightarrow> Inl e
      | Inr date \<Rightarrow>
          (let stocks = filter (\<lambda>r. tradeDate r = date \<and> marketType r = Some mt) db;
               total = length stocks
           in if total = 0 then
                Inr \<lparr> ms_tradeDate = date, ms_marketType = mt, score = None, adv = None,
                      adLine = None \<rparr>
              else
                (let advancing = length (filter is_advancing stocks);
                     declining = length (filter is_declining stocks);
                     adv_v = int advancing - int declining;
                     fromDate = date - 90;
                     adLine_v = foldl (\<lambda>sm a. sm + a) 0 (advHistory db mt fromDate date)
                 in Inr \<lparr> ms_tradeDate = date, ms_marketType = mt,
                          score = Some (classify (scorePoints adv_v adLine_v stocks)),
                          adv = Some adv_v, adLine = Some adLine_v \<rparr>)))"

subsection \<open>fetchUptrendSymbols\<close>

definition uptrend_where :: "int \<Rightarrow> string \<Rightarrow> real eod_row \<Rightarrow> bool" where
  "uptrend_where date mt r =
     (tradeDate r = date
      \<and> marketType r = Some mt
      \<and> turnover10 r \<noteq> None
      \<and> sql_ge (turnover10 r) 1500000
      \<and> rsi14 r \<noteq> None
      \<and> sql_between (rsi14 r) 60 70
      \<and> macdHist r \<noteq> None
      \<and> sql_ge (macdHist r) 0
      \<and> closingPrice r \<noteq> None
      \<and> sma20 r \<noteq> None
      \<and> sma50 r \<noteq> None
      \<and> sma200 r \<noteq> None
      \<and> sql_gt (closingPrice r) (sma20 r)
      \<and> sql_gt (sma20 r) (sma50 r)
      \<and> sql_gt (sma50 r) (sma200 r))"

text \<open>\<open>ORDER BY ez ASC\<close> puts the rows whose \<open>ez\<close> is \<open>NULL\<close> after all others.\<close>

definition asc_nulls_last :: "real option \<Rightarrow> nat \<times> real" where
  "asc_nulls_last x = (case x of Some v \<Rightarrow> (0, v) | None \<Rightarrow> (1, 0))"

definition uptrend_rows :: "real eod_row list \<Rightarrow> int \<Rightarrow> string \<Rightarrow> real eod_row list" where
  "uptrend_rows db date mt =
     sort_key (\<lambda>r. (asc_nulls_last (ez r), symbol r)) (filter (uptrend_where date mt) db)"

text \<open>\<open>Number(r.ez)\<close>, which is \<open>0\<close> for \<open>null\<close>.\<close>

definition Number_of :: "real option \<Rightarrow> real" where
  "Number_of x = (case x of None \<Rightarrow> 0 | Some v \<Rightarrow> v)"

record UptrendSymbolsResponse =
  up_tradeDate :: int
  up_marketType :: string
  up_count :: nat
  up_items :: "(string \<times> real) list"

definition fetchUptrendSymbols ::
  "real eod_row list \<Rightarrow> string \<Rightarrow> int option \<Rightarrow> error + UptrendSymbolsResponse" where
  "fetchUptrendSymbols db mt tradeDate_arg =
     (case query_date db mt tradeDate_arg of
        Inl e \<Rightarrow> Inl e
      | Inr date \<Rightarrow>
          (let rows = uptrend_rows db date mt;
               items = map (\<lambda>r. (symbol r, Number_of (ez r))) rows
           in Inr \<lparr> up_tradeDate = date, up_marketType = mt, up_count = length items,
                    up_items = items \<rparr>))"

subsection \<open>Aggregated candlesticks\<close>











datatype timeframe = TF_3D | TF_1W | TF_1M | TF_3M



text \<open>
  \<open>DATE_TRUNC\<close> is PostgreSQL's; it is a parameter: the function that maps a unit and a day
  to the first day of the week, month or quarter of that day.
\<close>




section \<open>Notions used to state the properties\<close>

text \<open>A value that is neither \<open>null\<close> nor non-finite, and the real it stands for.\<close>

definition valid_num :: "jsnum option \<Rightarrow> bool" where
  "valid_num v = (case v of Some (Fin x) \<Rightarrow> True | _ \<Rightarrow> False)"

fun fin_of :: "jsnum option \<Rightarrow> real" where
  "fin_of (Some (Fin x)) = x"
| "fin_of _ = 0"

text \<open>The number of consecutive valid elements that end just before index \<open>n\<close>.\<close>

fun run_length :: "jsnum option list \<Rightarrow> nat \<Rightarrow> nat" where
  "run_length vs 0 = 0"
| "run_length vs (Suc n) = (if valid_num (vs ! n) then Suc (run_length vs n) else 0)"

text \<open>The \<open>period\<close> elements that end at index \<open>i\<close>, and what is said of them.\<close>

definition window :: "jsnum option list \<Rightarrow> nat \<Rightarrow> nat \<Rightarrow> jsnum option list" where
  "window vs period i = map (\<lambda>j. vs ! j) [i + 1 - period..<i + 1]"

definition window_valid :: "jsnum option list \<Rightarrow> nat \<Rightarrow> nat \<Rightarrow> bool" where
  "window_valid vs period i = (period \<le> i + 1 \<and> list_all valid_num (window vs period i))"

definition mean :: "real list \<Rightarrow> real" where
  "mean xs = sum_list xs / real (length xs)"

definition window_mean :: "jsnum option list \<Rightarrow> nat \<Rightarrow> nat \<Rightarrow> real" where
  "window_mean vs period i = mean (map fin_of (window vs period i))"

definition window_meanDev :: "jsnum option list \<Rightarrow> nat \<Rightarrow> nat \<Rightarrow> real" where
  "window_meanDev vs period i =
     mean (map (\<lambda>v. \<bar>fin_of v - window_mean vs period i\<bar>) (window vs period i))"


text \<open>
  Money flow over the window that ends at \<open>i\<close>: the days whose typical price compares
  with the day before as \<open>cmp\<close> says, and the sum of the raw money flow of given days.
\<close>

definition flow_days ::
  "(jsnum \<Rightarrow> jsnum \<Rightarrow> bool) \<Rightarrow> jsnum option list \<Rightarrow> nat \<Rightarrow> nat \<Rightarrow> nat list" where
  "flow_days cmp tp period i =
     filter (\<lambda>j. case (tp ! j, tp ! (j - 1)) of (Some t, Some tPrev) \<Rightarrow> cmp t tPrev | _ \<Rightarrow> False)
       [i + 1 - period..<i + 1]"

definition flow_sum :: "jsnum option list \<Rightarrow> nat list \<Rightarrow> jsnum" where
  "flow_sum rmf js = foldl jadd (Fin 0) (map (\<lambda>j. to_number (rmf ! j)) js)"

definition posSum :: "jsnum option list \<Rightarrow> jsnum option list \<Rightarrow> nat \<Rightarrow> nat \<Rightarrow> jsnum" where
  "posSum tp rmf period i = flow_sum rmf (flow_days jgt tp period i)"

definition negSum :: "jsnum option list \<Rightarrow> jsnum option list \<Rightarrow> nat \<Rightarrow> nat \<Rightarrow> jsnum" where
  "negSum tp rmf period i = flow_sum rmf (flow_days jlt tp period i)"

definition mfi_window_valid :: "jsnum option list \<Rightarrow> jsnum option list \<Rightarrow> nat \<Rightarrow> nat \<Rightarrow> bool" where
  "mfi_window_valid tp rmf period i =
     list_all (\<lambda>j. tp ! j \<noteq> None \<and> tp ! (j - 1) \<noteq> None \<and> rmf ! j \<noteq> None) [i + 1 - period..<i + 1]"

subsection \<open>Market breadth\<close>

text \<open>The rows of a market type on a date, and the sentiment reading in the spec's words.\<close>

definition universe :: "real eod_row list \<Rightarrow> string \<Rightarrow> int \<Rightarrow> real eod_row list" where
  "universe db mt d = filter (\<lambda>r. tradeDate r = d \<and> marketType r = Some mt) db"

definition is_below :: "real \<Rightarrow> real option \<Rightarrow> bool" where
  "is_below c x = (case x of None \<Rightarrow> False | Some v \<Rightarrow> v < c)"

definition breadth :: "real eod_row list \<Rightarrow> int" where
  "breadth stocks =
     int (length (filter (\<lambda>s. is_above 0 (change s)) stocks)) -
     int (length (filter (\<lambda>s. is_below 0 (change s)) stocks))"

definition breadthLine :: "real eod_row list \<Rightarrow> string \<Rightarrow> int \<Rightarrow> int" where
  "breadthLine db mt d = (\<Sum>t = d - 90..d. breadth (universe db mt t))"

definition more_than_half :: "('a \<Rightarrow> bool) \<Rightarrow> 'a list \<Rightarrow> bool" where
  "more_than_half p xs = (length xs < 2 * length (filter p xs))"

definition count_true :: "bool list \<Rightarrow> nat" where
  "count_true bs = length (filter (\<lambda>b. b) bs)"

definition regime :: "nat \<Rightarrow> spirit" where
  "regime n = (if n \<in> {0, 1, 2} then Defense else if n \<in> {3, 4} then Selective else Attack)"

definition sub_scores :: "real eod_row list \<Rightarrow> string \<Rightarrow> int \<Rightarrow> bool list" where
  "sub_scores db mt d =
     (let stocks = universe db mt d
      in [0 < breadth stocks,
          0 < breadthLine db mt d,
          more_than_half (\<lambda>s. is_above 0 (ez s)) stocks,
          more_than_half (\<lambda>s. is_above 50 (rsi14 s)) stocks,
          more_than_half (\<lambda>s. is_above 0 (macdHist s)) stocks,
          more_than_half (\<lambda>s. is_above 0 (cci20 s)) stocks])"

subsection \<open>The uptrend screen and the change of a bucket\<close>

definition qualifies :: "real eod_row \<Rightarrow> bool" where
  "qualifies r =
     (\<exists>t rs mh c s20 s50 s200.
        turnover10 r = Some t \<and> rsi14 r = Some rs \<and> macdHist r = Some mh \<and>
        closingPrice r = Some c \<and> sma20 r = Some s20 \<and> sma50 r = Some s50 \<and>
        sma200 r = Some s200 \<and>
        1500000 \<le> t \<and> 60 \<le> rs \<and> rs \<le> 70 \<and> 0 \<le> mh \<and> s20 < c \<and> s50 < s20 \<and> s200 < s50)"

text \<open>
  A row as the refresh job leaves it: an \<open>ez\<close> whenever the close and a non-zero \<open>sma20\<close>
  are present, and averages of prices, which are not negative.
\<close>

definition written :: "real eod_row \<Rightarrow> bool" where
  "written r =
     ((case (closingPrice r, sma20 r) of
         (Some c, Some m) \<Rightarrow> m = 0 \<or> ez r \<noteq> None
       | _ \<Rightarrow> True) \<and>
      (case sma200 r of Some v \<Rightarrow> 0 \<le> v | None \<Rightarrow> True))"


subsection \<open>The refresh job\<close>

text \<open>
  What a refresh for a date and a market type is to write: every row of that date whose
  symbol has a row of the market type on that date gets the indicators computed from the
  table as it was before the job.
\<close>

definition refresh_row ::
  "jsnum eod_row list \<Rightarrow> int \<Rightarrow> string set \<Rightarrow> jsnum eod_row \<Rightarrow> jsnum eod_row" where
  "refresh_row db d S r =
     (if tradeDate r = d \<and> symbol r \<in> S
      then set_indicators (getTradingIndicators db (symbol r) d (d - 450)) r else r)"

definition traded_symbols :: "jsnum eod_row list \<Rightarrow> int \<Rightarrow> string \<Rightarrow> string list" where
  "traded_symbols db d mt = map symbol (filter (\<lambda>r. tradeDate r = d \<and> marketType r = Some mt) db)"

definition refreshed :: "jsnum eod_row list \<Rightarrow> int \<Rightarrow> string \<Rightarrow> jsnum eod_row list" where
  "refreshed db d mt = map (refresh_row db d (set (traded_symbols db d mt))) db"

text \<open>Two rows that agree on every ingested column.\<close>

definition same_ingested :: "'n eod_row \<Rightarrow> 'n eod_row \<Rightarrow> bool" where
  "same_ingested r r' =
     (row_id r' = row_id r \<and> tradeDate r' = tradeDate r
      \<and> firstTradingDate r' = firstTradingDate r \<and> isin r' = isin r \<and> change r' = change r
      \<and> securityId r' = securityId r \<and> turnover r' = turnover r
      \<and> closingPrice r' = closingPrice r \<and> basePrice r' = basePrice r
      \<and> openingPrice r' = openingPrice r \<and> high r' = high r \<and> low r' = low r
      \<and> changeValue r' = changeValue r \<and> transactionsNumber r' = transactionsNumber r
      \<and> volume r' = volume r \<and> marketCap r' = marketCap r
      \<and> minContPhaseAmount r' = minContPhaseAmount r \<and> listedCapital r' = listedCapital r
      \<and> adjustedClosingPrice r' = adjustedClosingPrice r \<and> exCode r' = exCode r
      \<and> adjustmentCoefficient r' = adjustmentCoefficient r \<and> symbol r' = symbol r
      \<and> marketType r' = marketType r)"

text \<open>The fourteen indicator columns of a row.\<close>

definition snapshot :: "'n eod_row \<Rightarrow> 'n indicators" where
  "snapshot r =
     \<lparr> rsi14 = rsi14 r, macd = macd r, macdSignal = macdSignal r, macdHist = macdHist r,
       cci20 = cci20 r, mfi14 = mfi14 r, turnover10 = turnover10 r, sma20 = sma20 r,
       sma50 = sma50 r, sma200 = sma200 r, ez = ez r, stddev20 = stddev20 r,
       upperBollingerBand20 = upperBollingerBand20 r,
       lowerBollingerBand20 = lowerBollingerBand20 r \<rparr>"

section \<open>Example series\<close>

text \<open>Fifteen closes \<open>100, 101, ...\<close> with a \<open>null\<close> at index 5.\<close>

definition short_gap_closes :: "jsnum option list" where
  "short_gap_closes =
     map (\<lambda>i. Some (Fin (100 + real i))) [0..<5] @ [None] @
     map (\<lambda>i. Some (Fin (100 + real i))) [6..<15]"

text \<open>Sixteen rising closes, a \<open>null\<close> at index 16, then twenty more rising closes.\<close>

definition late_gap_closes :: "jsnum option list" where
  "late_gap_closes =
     map (\<lambda>i. Some (Fin (100 + real i))) [0..<16] @ [None] @
     map (\<lambda>i. Some (Fin (100 + real i))) [17..<37]"



text \<open>Twenty bars whose high, low and close are all \<open>12.34\<close>, and twenty at \<open>2 ^ 1022\<close>.\<close>

definition flat20 :: "jsnum option list" where
  "flat20 = replicate 20 (Some (round_double (1234 / 100)))"

definition huge20 :: "jsnum option list" where
  "huge20 = replicate 20 (Some (Fin (pow2 1022)))"

text \<open>Fifteen bars: flat prices, rising prices, and a constant volume.\<close>

definition flat15 :: "jsnum option list" where
  "flat15 = replicate 15 (Some (Fin 10))"

definition rising15 :: "jsnum option list" where
  "rising15 = map (\<lambda>i. Some (Fin (10 + real i))) [0..<15]"

definition volume15 :: "jsnum option list" where
  "volume15 = replicate 15 (Some (Fin 1000))"

subsection \<open>Example tables\<close>

definition blank_row :: "'n eod_row" where
  "blank_row =
     \<lparr> rsi14 = None, macd = None, macdSignal = None, macdHist = None, cci20 = None,
       mfi14 = None, turnover10 = None, sma20 = None, sma50 = None, sma200 = None, ez = None,
       stddev20 = None, upperBollingerBand20 = None, lowerBollingerBand20 = None,
       row_id = [], tradeDate = 0, firstTradingDate = None, isin = [], change = None,
       securityId = 0, turnover = None, closingPrice = None, basePrice = None,
       openingPrice = None, high = None, low = None, changeValue = None,
       transactionsNumber = None, volume = None, marketCap = None, minContPhaseAmount = None,
       listedCapital = None, adjustedClosingPrice = None, exCode = None,
       adjustmentCoefficient = None, symbol = [], marketType = None \<rparr>"

text \<open>A stock row with its change and the four indicators that the sentiment score reads.\<close>

definition spirit_row ::
  "string \<Rightarrow> int \<Rightarrow> real option \<Rightarrow> real option \<Rightarrow> real option \<Rightarrow> real option \<Rightarrow> real option
     \<Rightarrow> real eod_row" where
  "spirit_row s d c e r m k =
     blank_row\<lparr> symbol := s, tradeDate := d, marketType := Some ''STOCK'', change := c, ez := e,
                rsi14 := r, macdHist := m, cci20 := k \<rparr>"

text \<open>Three stocks on day 100 and one declining stock on day 50.\<close>

definition spirit_db :: "real eod_row list" where
  "spirit_db =
     [spirit_row ''AAA'' 100 (Some (3 / 2)) (Some 2) (Some 60) (Some (1 / 2)) (Some 10),
      spirit_row ''BBB'' 100 (Some (1 / 2)) (Some 1) (Some 55) (Some (- (1 / 10))) (Some (- 5)),
      spirit_row ''CCC'' 100 (Some (- 1)) None (Some 40) (Some (1 / 5)) None,
      spirit_row ''AAA'' 50 (Some (- 2)) None None None None]"

text \<open>
  A row of day 100 that passes every comparison of the uptrend screen but, depending on
  the close and the \<open>rsi14\<close> that are given, those on the close and on \<open>rsi14\<close>; its \<open>sma20\<close>
  is 100 and its \<open>ez\<close> is the distance of the close from it, in percent.
\<close>

definition uptrend_row :: "string \<Rightarrow> real \<Rightarrow> real \<Rightarrow> real eod_row" where
  "uptrend_row s c r =
     blank_row\<lparr> symbol := s, tradeDate := 100, marketType := Some ''STOCK'',
                turnover10 := Some 2000000, rsi14 := Some r, macdHist := Some 1,
                closingPrice := Some c, sma20 := Some 100, sma50 := Some 90,
                sma200 := Some 80, ez := Some (100 * ((c - 100) / 100)) \<rparr>"

definition uptrend_db :: "real eod_row list" where
  "uptrend_db =
     [uptrend_row ''AAA'' 110 65, uptrend_row ''DDD'' 105 70, uptrend_row ''BBB'' 105 60,
      uptrend_row ''CCC'' 120 75, uptrend_row ''EEE'' 95 65]"



text \<open>Two days of one stock and a row of another market type.\<close>

definition bar_row :: "string \<Rightarrow> int \<Rightarrow> string \<Rightarrow> real \<Rightarrow> jsnum eod_row" where
  "bar_row s d mt c =
     blank_row\<lparr> symbol := s, tradeDate := d, marketType := Some mt, closingPrice := Some (Fin c),
                high := Some (Fin (c + 1)), low := Some (Fin (c - 1)), volume := Some 1000,
                turnover := Some 50000 \<rparr>"

definition refresh_db :: "jsnum eod_row list" where
  "refresh_db =
     [bar_row ''AAA'' 100 ''STOCK'' 12, bar_row ''AAA'' 99 ''STOCK'' 11,
      bar_row ''BBB'' 100 ''BOND'' 7]"

section \<open>Properties of the output loops\<close>

lemma loop_vars_base: "i \<le> a \<Longrightarrow> loop_vars a i body s0 = s0"
  by (simp add: loop_vars_def)

lemma loop_vars_Suc: "a \<le> i \<Longrightarrow> loop_vars a (Suc i) body s0 = fst (body i (loop_vars a i body s0))"
  by (simp add: loop_vars_def)

lemma foldl_loop_step:
  "foldl (loop_step body) (out, s0) [a..<b] = (out', s') \<Longrightarrow>
     s' = loop_vars a b body s0 \<and> length out' = length out \<and>
     (\<forall>i < length out. out' ! i =
        (if a \<le> i \<and> i < b
         then (case snd (body i (loop_vars a i body s0)) of None \<Rightarrow> out ! i | Some v \<Rightarrow> Some v)
         else out ! i))"
proof (induction b arbitrary: out' s')
  case 0
  then show ?case by (simp add: loop_vars_def)
next
  case (Suc b)
  show ?case
  proof (cases "a \<le> b")
    case False
    with Suc.prems show ?thesis by (auto simp add: loop_vars_def)
  next
    case True
    obtain o1 s1 where f: "foldl (loop_step body) (out, s0) [a..<b] = (o1, s1)"
      by (cases "foldl (loop_step body) (out, s0) [a..<b]") auto
    note ih = Suc.IH [OF f]
    from Suc.prems True f have st: "loop_step body (o1, s1) b = (out', s')" by simp
    obtain s2 e where b: "body b s1 = (s2, e)" by (cases "body b s1") auto
    from st b have s': "s' = s2" and o': "out' = (case e of None \<Rightarrow> o1 | Some v \<Rightarrow> o1[b := Some v])"
      by (auto simp: loop_step_def split: option.splits)
    from ih b s' True have 1: "s' = loop_vars a (Suc b) body s0"
      by (simp add: loop_vars_Suc)
    from ih o' have 2: "length out' = length out" by (simp split: option.splits)
    have 3: "out' ! i = (if a \<le> i \<and> i < Suc b
         then (case snd (body i (loop_vars a i body s0)) of None \<Rightarrow> out ! i | Some v \<Rightarrow> Some v)
         else out ! i)" if "i < length out" for i
    proof (cases "i = b")
      case True
      with that ih b o' \<open>a \<le> b\<close> show ?thesis by (simp split: option.splits)
    next
      case False
      with that ih o' show ?thesis by (auto split: option.splits)
    qed
    from 1 2 3 show ?thesis by blast
  qed
qed

lemma for_loop_length: "length (for_loop a n body s0) = n"
proof -
  obtain o1 s1 where f: "foldl (loop_step body) (replicate n None, s0) [a..<n] = (o1, s1)"
    by (cases "foldl (loop_step body) (replicate n None, s0) [a..<n]") auto
  from foldl_loop_step [OF f] f show ?thesis by (simp add: for_loop_def)
qed

lemma for_loop_nth:
  assumes "i < n"
  shows "for_loop a n body s0 ! i = (if a \<le> i then snd (body i (loop_vars a i body s0)) else None)"
proof -
  obtain o1 s1 where f: "foldl (loop_step body) (replicate n None, s0) [a..<n] = (o1, s1)"
    by (cases "foldl (loop_step body) (replicate n None, s0) [a..<n]") auto
  from foldl_loop_step [OF f] f assms show ?thesis
    by (auto simp: for_loop_def split: option.splits)
qed

section \<open>Properties of the rounding\<close>

lemma pow2_powi: "pow2 e = 2 powi e"
  by (simp add: pow2_def power_int_def inverse_eq_divide power_one_over)

lemma pow2_pos: "0 < pow2 e"
  by (simp add: pow2_powi)

lemma pow2_nat: "pow2 (int n) = 2 ^ n"
  by (simp add: pow2_def)

lemma pow2_neg_nat: "pow2 (- int n) = 1 / 2 ^ n"
  by (simp add: pow2_powi power_int_minus inverse_eq_divide)

lemma pow2_add: "pow2 (a + b) = pow2 a * pow2 b"
  by (simp add: pow2_powi power_int_add)

lemma pow2_mono: "a \<le> b \<Longrightarrow> pow2 a \<le> pow2 b"
  by (simp add: pow2_powi power_int_increasing)

lemma pow2_Suc: "pow2 (e + 1) = 2 * pow2 e"
  using pow2_add [of e 1] pow2_nat [of 1] by simp

lemma ilog2_bounds:
  assumes "0 < a"
  shows "pow2 (ilog2 a) \<le> a" and "a < pow2 (ilog2 a + 1)"
proof -
  have "pow2 (ilog2 a) \<le> a \<and> a < pow2 (ilog2 a + 1)"
  proof (cases "1 \<le> a")
    case True
    define m where "m = \<lfloor>a\<rfloor>"
    from True have m: "0 < m" by (simp add: m_def)
    define b where "b = nat (bitlen m - 1)"
    from m have bl: "bitlen m = int b + 1"
      using bitlen_nonneg [of m] bitlen_eq_zero_iff [of m] by (simp add: b_def)
    from bitlen_bounds [OF m] have lo: "2 ^ b \<le> m" and hi: "m < 2 ^ Suc b"
      by (simp_all add: bl nat_add_distrib)
    have "real_of_int m \<le> a" by (simp add: m_def)
    with lo have 1: "2 ^ b \<le> a"
      by (metis (mono_tags) of_int_le_iff of_int_numeral of_int_power order_trans)
    from hi have "m + 1 \<le> 2 ^ Suc b" by simp
    then have "real_of_int (m + 1) \<le> 2 ^ Suc b"
      by (metis of_int_le_iff of_int_numeral of_int_power)
    moreover have "a < real_of_int (m + 1)" by (simp add: m_def)
    ultimately have 2: "a < 2 ^ Suc b" by linarith
    have "ilog2 a = int b" using True by (simp add: ilog2_def m_def [symmetric] bl)
    with 1 2 show ?thesis
      using pow2_nat [of b] pow2_nat [of "Suc b"] by (simp add: add.commute)
  next
    case False
    define z where "z = 1 / a"
    from False assms have z: "1 < z" by (simp add: z_def)
    define m where "m = \<lceil>z\<rceil> - 1"
    from z have m: "0 < m" by (simp add: m_def)
    define b where "b = nat (bitlen m - 1)"
    from m have bl: "bitlen m = int b + 1"
      using bitlen_nonneg [of m] bitlen_eq_zero_iff [of m] by (simp add: b_def)
    from bitlen_bounds [OF m] have lo: "2 ^ b \<le> m" and hi: "m < 2 ^ Suc b"
      by (simp_all add: bl nat_add_distrib)
    from hi have "m + 1 \<le> 2 ^ Suc b" by simp
    then have "real_of_int (m + 1) \<le> 2 ^ Suc b"
      by (metis of_int_le_iff of_int_numeral of_int_power)
    moreover have "z \<le> real_of_int (m + 1)" by (simp add: m_def)
    ultimately have "z \<le> 2 ^ Suc b" by linarith
    with assms have 1: "1 / 2 ^ Suc b \<le> a"
      unfolding z_def by (simp add: field_simps)
    from lo have "(2::real) ^ b \<le> real_of_int m"
      by (metis of_int_le_iff of_int_numeral of_int_power)
    moreover have "real_of_int m < z" by (simp add: m_def) linarith
    ultimately have "2 ^ b < z" by linarith
    with assms have 2: "a < 1 / 2 ^ b"
      unfolding z_def by (simp add: field_simps)
    have i: "ilog2 a = - int (Suc b)"
      using False by (simp add: ilog2_def z_def [symmetric] m_def [symmetric] bl)
    have j: "ilog2 a + 1 = - int b" using i by simp
    from 1 have "pow2 (ilog2 a) \<le> a"
      unfolding i pow2_neg_nat .
    moreover from 2 have "a < pow2 (ilog2 a + 1)"
      unfolding j pow2_neg_nat .
    ultimately show ?thesis ..
  qed
  then show "pow2 (ilog2 a) \<le> a" and "a < pow2 (ilog2 a + 1)" by simp_all
qed

lemma rne_of_int: "rne (of_int k) = k"
  by (simp add: rne_def)

lemma rne_bounds: "real_of_int (rne q) \<le> q + 1 / 2" "q - 1 / 2 \<le> real_of_int (rne q)"
  by (auto simp: rne_def Let_def) linarith+

lemma rne_mono_int: "real_of_int k \<le> q \<Longrightarrow> k \<le> rne q" "q \<le> real_of_int k \<Longrightarrow> rne q \<le> k"
proof -
  have f: "\<lfloor>q\<rfloor> \<le> rne q" "rne q \<le> \<lfloor>q\<rfloor> + 1" by (auto simp: rne_def Let_def)
  show "real_of_int k \<le> q \<Longrightarrow> k \<le> rne q"
  proof -
    assume "real_of_int k \<le> q"
    then have "k \<le> \<lfloor>q\<rfloor>" by (simp add: le_floor_iff)
    with f(1) show ?thesis by linarith
  qed
  assume q: "q \<le> real_of_int k"
  show "rne q \<le> k"
  proof (cases "q = real_of_int k")
    case True
    then show ?thesis by (simp add: rne_of_int)
  next
    case False
    with q have "q < real_of_int k" by simp
    then have "\<lfloor>q\<rfloor> < k" by (simp add: floor_less_iff)
    with f(2) show ?thesis by linarith
  qed
qed


lemma pow2_strict_mono: "a < b \<Longrightarrow> pow2 a < pow2 b"
  by (simp add: pow2_powi power_int_strict_increasing)

lemma pow2_less_D: "pow2 a < pow2 b \<Longrightarrow> a < b"
  using pow2_mono [of b a] by (cases "a < b") auto

lemma significand_bounds:
  assumes a: "0 < a" and e: "e = max (ilog2 a - 52) (- 1074)" and n: "n = rne (a / pow2 e)"
  shows "real_of_int n \<le> pow2 53" and "- 1074 < e \<Longrightarrow> pow2 52 \<le> real_of_int n"
proof -
  have p53: "pow2 53 = real_of_int (2 ^ 53)" using pow2_nat [of 53] by simp
  have p52: "pow2 52 = real_of_int (2 ^ 52)" using pow2_nat [of 52] by simp
  have "ilog2 a + 1 \<le> e + 53" using e by simp
  then have "pow2 (ilog2 a + 1) \<le> pow2 (e + 53)" by (rule pow2_mono)
  with ilog2_bounds(2) [OF a] have "a < pow2 e * pow2 53" by (simp add: pow2_add)
  then have "a / pow2 e \<le> pow2 53"
    using pow2_pos [of e] by (simp add: field_simps)
  then have "n \<le> 2 ^ 53" unfolding n p53 by (rule rne_mono_int(2))
  then show "real_of_int n \<le> pow2 53" unfolding p53 by (simp only: of_int_le_iff)
  assume "- 1074 < e"
  with e have "e + 52 = ilog2 a" by simp
  with ilog2_bounds(1) [OF a] have "pow2 (e + 52) \<le> a" by simp
  then have "pow2 52 \<le> a / pow2 e"
    using pow2_pos [of e] by (simp add: field_simps pow2_add)
  then have "2 ^ 52 \<le> n" unfolding n p52 by (rule rne_mono_int(1))
  then show "pow2 52 \<le> real_of_int n" unfolding p52 by (simp only: of_int_le_iff)
qed

lemma overflow_iff:
  assumes a: "0 < a" and e: "e = max (ilog2 a - 52) (- 1074)" and n: "n = rne (a / pow2 e)"
  shows "pow2 1024 \<le> real_of_int n * pow2 e \<longleftrightarrow> 971 < e \<or> e = 971 \<and> 2 ^ 53 \<le> n"
proof -
  note sb = significand_bounds [OF a e n]
  have p53: "pow2 53 = real_of_int (2 ^ 53)" using pow2_nat [of 53] by simp
  consider "971 < e" | "e = 971" | "e < 971" by linarith
  then show ?thesis
  proof cases
    case 1
    then have "pow2 52 \<le> real_of_int n" by (intro sb(2)) simp
    moreover from 1 have "pow2 972 \<le> pow2 e" by (intro pow2_mono) simp
    ultimately have "pow2 52 * pow2 972 \<le> real_of_int n * pow2 e"
      using pow2_pos [of 52] pow2_pos [of 972] by (intro mult_mono) simp_all
    moreover have "pow2 52 * pow2 972 = pow2 1024" using pow2_add [of 52 972] by simp
    ultimately show ?thesis using 1 by simp
  next
    case 2
    have "pow2 1024 = pow2 53 * pow2 971" using pow2_add [of 53 971] by simp
    then have "pow2 1024 \<le> real_of_int n * pow2 e \<longleftrightarrow> pow2 53 \<le> real_of_int n"
      using pow2_pos [of 971] 2 by simp
    also have "\<dots> \<longleftrightarrow> 2 ^ 53 \<le> n" unfolding p53 by (simp only: of_int_le_iff)
    finally show ?thesis using 2 by simp
  next
    case 3
    then have "pow2 e \<le> pow2 970" by (intro pow2_mono) simp
    moreover have "0 \<le> real_of_int n"
    proof -
      have "0 \<le> a / pow2 e" using a pow2_pos [of e] by simp
      then have "real_of_int 0 \<le> a / pow2 e" by simp
      then have "0 \<le> n" unfolding n by (rule rne_mono_int(1))
      then show ?thesis by simp
    qed
    ultimately have "real_of_int n * pow2 e \<le> pow2 53 * pow2 970"
      using sb(1) pow2_pos [of 970] pow2_pos [of e] by (intro mult_mono) simp_all
    moreover have "pow2 53 * pow2 970 = pow2 1023" using pow2_add [of 53 970] by simp
    moreover have "pow2 1023 < pow2 1024" by (intro pow2_strict_mono) simp
    ultimately show ?thesis using 3 by simp
  qed
qed

lemma round_double_code [code]:
  "round_double x =
     (if x = 0 then Fin 0
      else
        let a = \<bar>x\<bar>;
            e = max (ilog2 a - 52) (- 1074);
            n = rne (a / pow2 e)
        in if 971 < e \<or> e = 971 \<and> 2 ^ 53 \<le> n then (if 0 < x then PInf else NInf)
           else Fin (if 0 < x then of_int n * pow2 e else - (of_int n * pow2 e)))"
proof (cases "x = 0")
  case True
  then show ?thesis by (simp add: round_double_def)
next
  case False
  then have "0 < \<bar>x\<bar>" by simp
  from overflow_iff [OF this refl refl] show ?thesis
    by (simp add: round_double_def Let_def)
qed

lemma rne_eval: "rne q = rne_floor q \<lfloor>q\<rfloor>"
  by (simp add: rne_def rne_floor_def Let_def)

lemma round_double_eval:
  "round_double x = (if x = 0 then Fin 0 else round_exp x (max (ilog2 \<bar>x\<bar> - 52) (- 1074)))"
  by (simp add: round_double_code round_exp_def round_sig_def Let_def)

lemma bitlen_One: "bitlen 1 = 1"
  by (subst compute_bitlen) simp

lemma bitlen_numeral_One: "bitlen (numeral Num.One) = 1"
  by (simp add: bitlen_One)

lemma bitlen_Bit0: "bitlen (numeral (Num.Bit0 k)) = bitlen (numeral k) + 1"
  by (subst compute_bitlen) simp

lemma bitlen_Bit1: "bitlen (numeral (Num.Bit1 k)) = bitlen (numeral k) + 1"
  by (subst compute_bitlen) simp

text \<open>The rules that evaluate a rounding of a literal.\<close>

lemmas round_eval = round_double_eval round_exp_def round_sig_def rne_eval rne_floor_def
  ilog2_def pow2_def bitlen_One bitlen_numeral_One bitlen_Bit0 bitlen_Bit1

lemma round_double_zero [simp]: "round_double 0 = Fin 0"
  by (simp add: round_double_def)

lemma round_double_Ints:
  assumes x: "x \<in> \<int>" and b: "\<bar>x\<bar> < 2 ^ 53"
  shows "round_double x = Fin x"
proof (cases "x = 0")
  case True
  then show ?thesis by (simp add: round_double_zero)
next
  case False
  define a where "a = \<bar>x\<bar>"
  define e where "e = max (ilog2 a - 52) (- 1074)"
  have a: "0 < a" using False by (simp add: a_def)
  have aZ: "a \<in> \<int>" using x by (simp add: a_def)
  have "pow2 (ilog2 a) \<le> a" by (rule ilog2_bounds(1) [OF a])
  also have "a < pow2 53" using b pow2_nat [of 53] by (simp add: a_def)
  finally have "ilog2 a < 53" by (rule pow2_less_D)
  then have e0: "e \<le> 0" and e1: "- 1074 \<le> e" by (simp_all add: e_def)
  then have pe: "pow2 e = 1 / 2 ^ nat (- e)"
    using pow2_neg_nat [of "nat (- e)"] by simp
  have "a / pow2 e = a * 2 ^ nat (- e)" by (simp add: pe)
  moreover have "a * 2 ^ nat (- e) \<in> \<int>" using aZ by (intro Ints_mult Ints_power) simp_all
  ultimately obtain k where k: "a / pow2 e = real_of_int k" by (auto elim: Ints_cases)
  have r: "real_of_int (rne (a / pow2 e)) * pow2 e = a"
    unfolding k rne_of_int using k pow2_pos [of e] by (simp add: field_simps)
  have "a < pow2 1024"
    using \<open>a < pow2 53\<close> pow2_mono [of 53 1024] by simp
  then show ?thesis
    using False r by (simp add: round_double_def Let_def a_def [symmetric] e_def [symmetric])
      (simp add: a_def)
qed

lemma round_double_of_int: "\<bar>n\<bar> < 2 ^ 53 \<Longrightarrow> round_double (of_int n) = Fin (of_int n)"
proof -
  assume "\<bar>n\<bar> < 2 ^ 53"
  then have "real_of_int \<bar>n\<bar> < real_of_int (2 ^ 53)" by (simp only: of_int_less_iff)
  then show ?thesis by (intro round_double_Ints) simp_all
qed

section \<open>Properties of rsi\<close>

lemma rsi_seed_null:
  "\<exists>k \<in> set ks. values ! (k - 1) = None \<or> values ! k = None \<Longrightarrow>
     rsi_seed values ks gl = (Fin 0, Fin 0)"
  by (induction ks arbitrary: gl) (auto split: option.splits simp: Let_def)

text \<open>
  C2: the claim is that \<open>rsi\<close> is \<open>null\<close> at index \<open>period\<close> when the first \<open>period + 1\<close>
  values contain a \<open>null\<close>.  The code does otherwise: when the \<open>null\<close> is at an index below
  \<open>period - 1\<close> and the last two values of the window are present, the seeding loop
  breaks with \<open>g = l = 0\<close>, both averages are seeded with \<open>0\<close>, and the output is \<open>100\<close>.
\<close>

theorem rsi_degenerate_seed:
  assumes "0 < period" and "period < length values"
    and "values ! (period - 1) \<noteq> None" and "values ! period \<noteq> None"
    and "k < period - 1" and "values ! k = None"
  shows "rsi values period ! period = Some (Fin 100)"
proof -
  from assms have "Suc k \<in> set [1..<period + 1]" by auto
  with assms(6) have seed: "rsi_seed values [1..<period + 1] (Fin 0, Fin 0) = (Fin 0, Fin 0)"
    by (intro rsi_seed_null) (rule bexI [of _ "Suc k"], simp_all)
  then have seed': "rsi_seed values ([Suc 0..<period] @ [period]) (Fin 0, Fin 0) = (Fin 0, Fin 0)"
    using assms(1) by simp
  from assms have "snd (rsi_body values period period st) = Some (Fin 100)" for st
    by (auto simp: rsi_body_def seed' rsi_value_def Let_def)
  with assms show ?thesis by (simp add: rsi_def for_loop_nth)
qed

theorem rsi_degenerate_seed_witness:
  "(0::nat) < 14 \<and> 14 < length short_gap_closes
   \<and> short_gap_closes ! (14 - 1) \<noteq> None \<and> short_gap_closes ! 14 \<noteq> None
   \<and> (5::nat) < 14 - 1 \<and> short_gap_closes ! 5 = None
   \<and> rsi short_gap_closes 14 ! 14 = Some (Fin 100)"
  using rsi_degenerate_seed [of 14 short_gap_closes 5]
  by (simp add: short_gap_closes_def nth_append)

lemma rsi_body_null:
  "values ! (i - 1) = None \<or> values ! i = None \<Longrightarrow> rsi_body values period i st = ((None, None), None)"
  by (auto simp: rsi_body_def split: option.splits)

lemma rsi_body_unseeded:
  "period < i \<Longrightarrow> rsi_body values period i (None, None) = ((None, None), None)"
  by (auto simp: rsi_body_def Let_def split: option.splits)

lemma rsi_vars_after_null:
  assumes "values ! n = None" and "period \<le> n + 1" and "n + 1 \<le> j"
  shows "loop_vars 1 (Suc j) (rsi_body values period) (None, None) = (None, None)"
  using assms(3)
proof (induction j rule: nat_induct_at_least)
  case base
  from assms(1) show ?case by (simp add: loop_vars_Suc rsi_body_null)
next
  case (Suc j)
  from Suc assms(2) have "period < Suc j" by simp
  with Suc show ?case by (simp add: loop_vars_Suc rsi_body_unseeded)
qed

text \<open>
  C1: the claim is that \<open>rsi\<close> emits values again after a \<open>null\<close> once enough valid closes
  follow.  The code does otherwise: the averages are seeded only in the iteration
  \<open>i = period\<close>, so after a \<open>null\<close> at an index \<open>n \<ge> period - 1\<close> every output from \<open>n\<close> on
  is \<open>null\<close>, however many valid closes follow.
\<close>

theorem rsi_null_after_gap:
  assumes "values ! n = None" and "period \<le> n + 1" and "n \<le> i" and "i < length values"
  shows "rsi values period ! i = None"
proof -
  consider "i = n" | "i = n + 1" | "n + 1 < i" using assms(3) by linarith
  then have "1 \<le> i \<Longrightarrow> snd (rsi_body values period i (loop_vars 1 i (rsi_body values period) (None, None))) = None"
  proof cases
    case 1
    with assms(1) show ?thesis by (simp add: rsi_body_null)
  next
    case 2
    with assms(1) show ?thesis by (simp add: rsi_body_null)
  next
    case 3
    then obtain j where j: "i = Suc j" "n + 1 \<le> j" by (cases i) auto
    from j(2) assms(2) have "period < i" unfolding j(1) by simp
    with rsi_vars_after_null [OF assms(1,2) j(2)] show ?thesis
      unfolding j(1) by (simp add: rsi_body_unseeded)
  qed
  with assms(4) show ?thesis by (simp add: rsi_def for_loop_nth)
qed

theorem rsi_null_after_gap_witness:
  "late_gap_closes ! 16 = None \<and> (14::nat) \<le> 16 + 1 \<and> (16::nat) \<le> 36
   \<and> 36 < length late_gap_closes \<and> rsi late_gap_closes 14 ! 36 = None"
  using rsi_null_after_gap [of late_gap_closes 16 14 36]
  by (simp add: late_gap_closes_def nth_append)

section \<open>Properties of sma\<close>


lemma valid_num_iff: "valid_num v \<longleftrightarrow> (\<exists>x. v = Some (Fin x))"
  by (auto simp: valid_num_def split: option.splits jsnum.splits)

lemma valid_num_isFinite: "valid_num (Some v) \<longleftrightarrow> isFinite v"
  by (cases v) (simp_all add: valid_num_def)

lemma valid_num_None: "\<not> valid_num None"
  by (simp add: valid_num_def)


lemma run_length_ge_iff:
  "k \<le> run_length vs n \<longleftrightarrow> k \<le> n \<and> (\<forall>j. n - k \<le> j \<and> j < n \<longrightarrow> valid_num (vs ! j))"
proof (induction n arbitrary: k)
  case 0
  show ?case by simp
next
  case (Suc n)
  show ?case
  proof (cases k)
    case 0
    then show ?thesis by auto
  next
    case (Suc k')
    show ?thesis
    proof (cases "valid_num (vs ! n)")
      case True
      have "(\<forall>j. n - k' \<le> j \<and> j < Suc n \<longrightarrow> valid_num (vs ! j)) \<longleftrightarrow>
            (\<forall>j. n - k' \<le> j \<and> j < n \<longrightarrow> valid_num (vs ! j))"
        using True less_Suc_eq by auto
      with True Suc show ?thesis using Suc.IH [of k'] by simp
    next
      case False
      then have "\<not> (\<forall>j. Suc n - k \<le> j \<and> j < Suc n \<longrightarrow> valid_num (vs ! j))"
        using Suc by (auto intro!: exI [of _ n])
      with False Suc show ?thesis by simp
    qed
  qed
qed

lemma window_valid_iff:
  "window_valid vs period i \<longleftrightarrow>
     period \<le> i + 1 \<and> (\<forall>j. i + 1 - period \<le> j \<and> j \<le> i \<longrightarrow> valid_num (vs ! j))"
  by (auto simp: window_valid_def window_def list_all_iff)


lemma window_valid_run_length:
  "window_valid vs period i \<longleftrightarrow> period \<le> run_length vs (Suc i)"
  using run_length_ge_iff [of period vs "Suc i"] by (simp add: window_valid_iff less_Suc_eq_le)

text \<open>The counter of the loop does not depend on the arithmetic.\<close>

lemma sma_body_count:
  "snd (fst (sma_body values period i (sm, c))) =
     (if valid_num (values ! i) then min period (c + 1) else 0)"
  by (auto simp: sma_body_def Let_def valid_num_isFinite valid_num_None split: option.splits)

lemma sma_count:
  assumes "0 < period"
  shows "snd (loop_vars 0 n (sma_body values period) (Fin 0, 0)) = min period (run_length values n)"
proof (induction n)
  case 0
  show ?case by (simp add: loop_vars_base)
next
  case (Suc n)
  obtain sm c where st: "loop_vars 0 n (sma_body values period) (Fin 0, 0) = (sm, c)"
    by (cases "loop_vars 0 n (sma_body values period) (Fin 0, 0)")
  with Suc have c: "c = min period (run_length values n)" by simp
  show ?case using assms by (auto simp add: loop_vars_Suc st sma_body_count c min_def)
qed

lemma sma_body_emit:
  "snd (sma_body values period i st) =
     (if valid_num (values ! i) \<and> snd (fst (sma_body values period i st)) = period
      then Some (jdiv (fst (fst (sma_body values period i st))) (Fin (real period)))
      else None)"
  by (auto simp: sma_body_def Let_def valid_num_isFinite valid_num_None split: option.splits prod.splits)

lemma sma_nth:
  assumes "0 < period" and "i < length values"
  shows "sma values period ! i =
     (if window_valid values period i
      then Some (jdiv (fst (loop_vars 0 (Suc i) (sma_body values period) (Fin 0, 0))) (Fin (real period)))
      else None)"
proof -
  let ?st = "loop_vars 0 i (sma_body values period) (Fin 0, 0)"
  let ?r = "run_length values (Suc i)"
  have new: "snd (fst (sma_body values period i ?st)) = min period ?r"
    using sma_count [OF assms(1), of "Suc i" "values"] by (simp add: loop_vars_Suc)
  have inv: "\<not> valid_num (values ! i) \<Longrightarrow> \<not> period \<le> ?r"
    using assms(1) by simp
  have "sma values period ! i = snd (sma_body values period i ?st)"
    using assms(2) by (simp add: sma_def for_loop_nth)
  also have "\<dots> = (if period \<le> ?r
      then Some (jdiv (fst (fst (sma_body values period i ?st))) (Fin (real period)))
      else None)"
    using inv by (subst sma_body_emit) (auto simp: new min_def)
  finally show ?thesis by (simp add: window_valid_run_length loop_vars_Suc)
qed








section \<open>Properties of cci\<close>

lemma length_typical_price: "length (typical_price highArr lowArr close) = length close"
  by (simp add: typical_price_def)

lemma typical_price_replicate:
  "typical_price (replicate n (Some a)) (replicate n (Some a)) (replicate n (Some a)) =
     replicate n (Some (jdiv (jadd (jadd a a) a) (Fin 3)))"
  by (rule nth_equalityI) (simp_all add: typical_price_def js_at_def)

lemma cci_nth_body:
  assumes "i < length close"
  shows "cci highArr lowArr close period ! i =
     snd (cci_body (typical_price highArr lowArr close)
            (sma (typical_price highArr lowArr close) period) period i ())"
  using assms by (simp add: cci_def Let_def for_loop_nth length_typical_price)

text \<open>Twenty bars at \<open>12.34\<close>: the typical price, its rolling mean, and the output.\<close>

lemma flat20_eq: "flat20 = replicate 20 (Some (Fin (3473401212609495 / 281474976710656)))"
  by (simp add: flat20_def round_eval)

lemma flat20_tp:
  "typical_price flat20 flat20 flat20 =
     replicate 20 (Some (Fin (6946802425218989 / 562949953421312)))"
  by (simp add: flat20_eq typical_price_replicate round_eval)

lemma flat20_window_valid:
  "window_valid (replicate 20 (Some (Fin (6946802425218989 / 562949953421312)))) 20 19"
  by (simp add: window_valid_def window_def valid_num_def list_all_iff)

lemma flat20_sum:
  "loop_vars 0 20 (sma_body (replicate 20 (Some (Fin (6946802425218989 / 562949953421312)))) 20)
     (Fin 0, 0) = (Fin (8683503031523739 / 35184372088832), 20)"
  by (simp add: loop_vars_def upt_rec sma_body_def Let_def round_eval)

lemma flat20_sma:
  "sma (replicate 20 (Some (Fin (6946802425218989 / 562949953421312)))) 20 ! 19 =
     Some (Fin (6946802425218991 / 562949953421312))"
proof -
  have "loop_vars 0 (Suc 19) (sma_body (replicate 20 (Some (Fin (6946802425218989 / 562949953421312)))) 20)
     (Fin 0, 0) = (Fin (8683503031523739 / 35184372088832), 20)"
    using flat20_sum by simp
  then show ?thesis
    by (simp add: sma_nth flat20_window_valid round_eval)
qed

lemma flat20_cci:
  "cci flat20 flat20 flat20 20 ! 19 = Some (Fin (- 4691249611844267 / 70368744177664))"
  by (simp add: cci_nth_body flat20_def [THEN arg_cong [of _ _ length]] flat20_tp flat20_sma
      cci_body_def upt_rec Let_def jsub_def round_eval)

lemma flat20_meanDev:
  "window_meanDev (replicate 20 (Some (Fin (6946802425218989 / 562949953421312)))) 20 19 = 0"
  by (simp add: window_meanDev_def window_mean_def window_def mean_def upt_rec)


text \<open>Twenty bars at \<open>2 ^ 1022\<close>: the running sum of the rolling mean overflows.\<close>

lemma huge20_tp: "typical_price huge20 huge20 huge20 = huge20"
  by (simp add: huge20_def typical_price_replicate round_eval)

lemma huge20_sum:
  "loop_vars 0 20 (sma_body huge20 20) (Fin 0, 0) = (PInf, 20)"
  by (simp add: huge20_def loop_vars_def upt_rec sma_body_def Let_def round_eval)

lemma huge20_sma: "sma huge20 20 ! 19 = Some PInf"
proof -
  have "loop_vars 0 (Suc 19) (sma_body huge20 20) (Fin 0, 0) = (PInf, 20)"
    using huge20_sum by simp
  moreover have "window_valid huge20 20 19"
    by (simp add: huge20_def window_valid_def window_def valid_num_def list_all_iff)
  ultimately show ?thesis by (simp add: sma_nth huge20_def)
qed

lemma huge20_cci: "cci huge20 huge20 huge20 20 ! 19 = Some NaN"
proof -
  have "length huge20 = 20" by (simp add: huge20_def)
  then have "cci huge20 huge20 huge20 20 ! 19 = snd (cci_body huge20 (sma huge20 20) 20 19 ())"
    by (simp add: cci_nth_body huge20_tp)
  also have "\<dots> = Some NaN"
    by (simp add: cci_body_def huge20_sma Let_def) (simp add: huge20_def upt_rec jsub_def round_eval)
  finally show ?thesis .
qed


text \<open>
  C5: the claim is that, for finite highs, lows and closes, the output of \<open>cci\<close> is \<open>null\<close>
  or a finite number, and \<open>null\<close> when the mean absolute deviation of the typical price
  over the window is zero.  The code does otherwise, because its guard \<open>meanDev === 0\<close>
  tests a deviation taken from the rounded rolling mean.  On twenty bars at \<open>12.34\<close> the
  typical price is constant, so its mean absolute deviation is zero, but the rolling mean
  is two units in the last place above it, and the output is \<open>-66.66666666666667\<close>.  On
  twenty bars at \<open>2 ^ 1022\<close> the running sum overflows and the output is NaN.
\<close>

theorem cci_inexact_guard:
  "(let tp = typical_price flat20 flat20 flat20
    in window_valid tp 20 19 \<and> window_meanDev tp 20 19 = 0 \<and>
       cci flat20 flat20 flat20 20 ! 19 = Some (Fin (- 4691249611844267 / 70368744177664)))
   \<and> list_all valid_num huge20 \<and> cci huge20 huge20 huge20 20 ! 19 = Some NaN"
proof -
  have "list_all valid_num huge20"
    by (simp add: huge20_def valid_num_def list_all_iff)
  then show ?thesis
    by (simp add: Let_def flat20_tp flat20_window_valid flat20_meanDev flat20_cci huge20_cci)
qed

section \<open>Properties of mfi\<close>

lemma jlt_asym: "jlt a b \<Longrightarrow> \<not> jlt b a"
  by (cases a; cases b) auto

lemma mfi_flows_valid:
  "list_all (\<lambda>j. tp ! j \<noteq> None \<and> tp ! (j - 1) \<noteq> None \<and> rmf ! j \<noteq> None) js \<Longrightarrow>
     mfi_flows tp rmf js (p, n) =
       (foldl jadd p (map (\<lambda>j. to_number (rmf ! j))
          (filter (\<lambda>j. case (tp ! j, tp ! (j - 1)) of (Some t, Some tPrev) \<Rightarrow> jgt t tPrev | _ \<Rightarrow> False) js)),
        foldl jadd n (map (\<lambda>j. to_number (rmf ! j))
          (filter (\<lambda>j. case (tp ! j, tp ! (j - 1)) of (Some t, Some tPrev) \<Rightarrow> jlt t tPrev | _ \<Rightarrow> False) js)))"
proof (induction js arbitrary: p n)
  case Nil
  show ?case by simp
next
  case (Cons j js)
  from Cons.prems obtain t tPrev f where
    v: "tp ! j = Some t" "tp ! (j - 1) = Some tPrev" "rmf ! j = Some f"
    by auto
  from Cons.prems have rest: "list_all (\<lambda>j. tp ! j \<noteq> None \<and> tp ! (j - 1) \<noteq> None \<and> rmf ! j \<noteq> None) js"
    by simp
  from v have v': "tp ! (j - Suc 0) = Some tPrev" by simp
  have "\<not> (jgt t tPrev \<and> jlt t tPrev)"
    using jlt_asym [of tPrev t] by (auto simp: jgt_def)
  then show ?case
    by (cases "jgt t tPrev"; cases "jlt t tPrev") (simp_all add: v v' Cons.IH [OF rest])
qed

text \<open>
  C3 (amended): for an index \<open>i \<ge> period\<close> whose window has all typical prices, prior
  typical prices and raw money flows present, \<open>mfi\<close> at \<open>i\<close> is \<open>null\<close> when the positive and
  the negative sum are both zero, \<open>100\<close> when only the negative sum is zero, and
  \<open>100 - 100 / (1 + posSum / negSum)\<close> otherwise.
\<close>

theorem mfi_zero_denominator:
  assumes "period \<le> i" and "i < length close"
    and "tp = typical_price highArr lowArr close" and "rmf = raw_money_flow tp volumeArr"
    and "mfi_window_valid tp rmf period i"
  shows "mfi highArr lowArr close volumeArr period ! i =
     (if jeq (posSum tp rmf period i) (Fin 0) \<and> jeq (negSum tp rmf period i) (Fin 0) then None
      else if jeq (negSum tp rmf period i) (Fin 0) then Some (Fin 100)
      else Some (jsub (Fin 100)
                  (jdiv (Fin 100) (jadd (Fin 1) (jdiv (posSum tp rmf period i) (negSum tp rmf period i))))))"
proof (cases "1 \<le> i")
  case False
  with assms(1) have z: "i = 0" "period = 0" by simp_all
  have "mfi highArr lowArr close volumeArr period ! i = None"
    using assms(2) z by (simp add: mfi_def Let_def for_loop_nth length_typical_price)
  moreover have "posSum tp rmf period i = Fin 0" "negSum tp rmf period i = Fin 0"
    using z by (simp_all add: posSum_def negSum_def flow_sum_def flow_days_def)
  ultimately show ?thesis by simp
next
  case True
  have i: "i < length tp" using assms(2,3) by (simp add: length_typical_price)
  have out: "mfi highArr lowArr close volumeArr period ! i = snd (mfi_body tp rmf period i ())"
    using i True assms(3,4) by (simp add: mfi_def Let_def for_loop_nth)
  have flows: "mfi_flows tp rmf [i + 1 - period..<i + 1] (Fin 0, Fin 0) =
                 (posSum tp rmf period i, negSum tp rmf period i)"
    using assms(5) unfolding mfi_window_valid_def posSum_def negSum_def flow_sum_def flow_days_def
    by (rule mfi_flows_valid)
  show ?thesis
    unfolding out using assms(1) flows [simplified]
    by (simp add: mfi_body_def mfi_value_def Let_def)
qed

lemma rising15_eq:
  "rising15 = map (\<lambda>x. Some (Fin x)) [10, 11, 12, 13, 14, 15, 16, 17, 18, 19, 20, 21, 22, 23, 24]"
  by (simp add: rising15_def upt_rec)

lemma rising15_tp: "typical_price rising15 rising15 rising15 = rising15"
  by (simp add: typical_price_def js_at_def rising15_eq upt_rec round_eval)

lemma rising15_rmf:
  "raw_money_flow rising15 volume15 =
     map (\<lambda>x. Some (Fin x))
       [10000, 11000, 12000, 13000, 14000, 15000, 16000, 17000, 18000, 19000, 20000, 21000,
        22000, 23000, 24000]"
  by (simp add: raw_money_flow_def js_at_def rising15_eq volume15_def upt_rec round_eval)

theorem mfi_zero_denominator_witness:
  "mfi rising15 rising15 rising15 volume15 14 ! 14 = Some (Fin 100)"
proof -
  define tp where "tp = typical_price rising15 rising15 rising15"
  define rmf where "rmf = raw_money_flow tp volume15"
  have tp: "tp = map (\<lambda>x. Some (Fin x)) [10, 11, 12, 13, 14, 15, 16, 17, 18, 19, 20, 21, 22, 23, 24]"
    unfolding tp_def rising15_tp by (rule rising15_eq)
  have rmf: "rmf = map (\<lambda>x. Some (Fin x))
       [10000, 11000, 12000, 13000, 14000, 15000, 16000, 17000, 18000, 19000, 20000, 21000,
        22000, 23000, 24000]"
    unfolding rmf_def tp_def rising15_tp by (rule rising15_rmf)
  have v: "mfi_window_valid tp rmf 14 14"
    by (simp add: mfi_window_valid_def tp rmf upt_rec)
  have p: "posSum tp rmf 14 14 = Fin 245000"
    by (simp add: posSum_def flow_sum_def flow_days_def tp rmf upt_rec jgt_def round_eval)
  have n: "negSum tp rmf 14 14 = Fin 0"
    by (simp add: negSum_def flow_sum_def flow_days_def tp rmf upt_rec)
  have l: "14 < length rising15" by (simp add: rising15_def)
  from mfi_zero_denominator [OF _ l tp_def rmf_def v] p n show ?thesis by simp
qed

text \<open>
  C3, as stated, fails on a flat series: the window is valid and the negative sum is
  zero, yet the output is \<open>null\<close>, not \<open>100\<close>, because the positive sum is zero as well.
\<close>

lemma flat15_tp: "typical_price flat15 flat15 flat15 = flat15"
  by (simp add: flat15_def typical_price_replicate round_eval)

lemma flat15_rmf: "raw_money_flow flat15 volume15 = replicate 15 (Some (Fin 10000))"
  by (rule nth_equalityI)
    (simp_all add: raw_money_flow_def js_at_def flat15_def volume15_def round_eval)

theorem mfi_flat_counterexample:
  "(let tp = typical_price flat15 flat15 flat15; rmf = raw_money_flow tp volume15
    in mfi_window_valid tp rmf 14 14 \<and> jeq (negSum tp rmf 14 14) (Fin 0)
       \<and> mfi flat15 flat15 flat15 volume15 14 ! 14 = None)"
proof -
  have v: "mfi_window_valid flat15 (replicate 15 (Some (Fin 10000))) 14 14"
    by (simp add: mfi_window_valid_def flat15_def upt_rec)
  have n: "negSum flat15 (replicate 15 (Some (Fin 10000))) 14 14 = Fin 0"
    by (simp add: negSum_def flow_sum_def flow_days_def flat15_def upt_rec)
  have "mfi flat15 flat15 flat15 volume15 14 ! 14 =
          snd (mfi_body flat15 (replicate 15 (Some (Fin 10000))) 14 14 ())"
    by (simp add: mfi_def Let_def flat15_tp flat15_rmf) (simp add: flat15_def for_loop_nth)
  also have "\<dots> = None"
    by (simp add: mfi_body_def mfi_value_def Let_def flat15_def upt_rec jgt_def)
  finally show ?thesis using v n by (simp add: Let_def flat15_tp flat15_rmf)
qed

section \<open>Properties of fetchMarketSpirit\<close>

lemma majority_more_than_half:
  assumes "xs \<noteq> []"
  shows "majority p xs = more_than_half p xs"
proof -
  have "(1 / 2 < real (length (filter p xs)) / real (length xs)) =
        (real (length xs) < real (2 * length (filter p xs)))"
    using assms by (simp add: field_simps)
  also have "\<dots> = (length xs < 2 * length (filter p xs))"
    by (rule of_nat_less_iff)
  finally show ?thesis by (simp add: majority_def more_than_half_def)
qed

lemma scorePoints_count:
  "scorePoints a l stocks =
     count_true [0 < a, 0 < l, majority (\<lambda>s. is_above 0 (ez s)) stocks,
                 majority (\<lambda>s. is_above 50 (rsi14 s)) stocks,
                 majority (\<lambda>s. is_above 0 (macdHist s)) stocks,
                 majority (\<lambda>s. is_above 0 (cci20 s)) stocks]"
  by (simp add: scorePoints_def count_true_def Let_def)

lemma classify_regime: "classify n = regime n"
  by (auto simp: classify_def regime_def)

lemma sql_gt_above: "sql_gt x (Some 0) = is_above 0 x"
  by (simp add: sql_gt_def is_above_def split: option.splits)

lemma sql_gt_below: "sql_gt (Some 0) x = is_below 0 x"
  by (simp add: sql_gt_def is_below_def split: option.splits)

lemma advancing_declining:
  "int (length (filter is_advancing stocks)) - int (length (filter is_declining stocks)) = breadth stocks"
proof -
  have "is_advancing = (\<lambda>s. is_above 0 (change s))" "is_declining = (\<lambda>s. is_below 0 (change s))"
    by (auto simp: is_advancing_def is_declining_def is_above_def is_below_def fun_eq_iff split: option.splits)
  then show ?thesis by (simp add: breadth_def)
qed

lemma foldl_plus_sum_list: "foldl (\<lambda>sm a. sm + a) (z::int) xs = z + sum_list xs"
  by (induction xs arbitrary: z) simp_all

lemma breadth_Nil: "breadth [] = 0"
  by (simp add: breadth_def)

lemma advHistory_sum:
  "foldl (\<lambda>sm a. sm + a) 0 (advHistory db mt (d - 90) d) = breadthLine db mt d"
proof -
  define rows where
    "rows = filter (\<lambda>r. marketType r = Some mt \<and> d - 90 \<le> tradeDate r \<and> tradeDate r \<le> d) db"
  define dates where "dates = sort (remdups (map tradeDate rows))"
  have dist: "distinct dates" and set: "set dates = tradeDate ` set rows"
    by (simp_all add: dates_def)
  have sub: "set dates \<subseteq> {d - 90..d}" unfolding set rows_def by auto
  have grp: "filter (\<lambda>r. tradeDate r = t) rows = universe db mt t" if "t \<in> {d - 90..d}" for t
    using that unfolding rows_def universe_def by (auto intro: filter_cong)
  have day: "int (length (filter (\<lambda>r. sql_gt (change r) (Some 0)) (filter (\<lambda>r. tradeDate r = t) rows))) -
             int (length (filter (\<lambda>r. sql_gt (Some 0) (change r)) (filter (\<lambda>r. tradeDate r = t) rows))) =
             breadth (universe db mt t)" if "t \<in> set dates" for t
    using that sub grp [of t] by (simp add: sql_gt_above sql_gt_below breadth_def subset_iff)
  have "advHistory db mt (d - 90) d = map (\<lambda>t. breadth (universe db mt t)) dates"
    unfolding advHistory_def Let_def rows_def [symmetric] dates_def [symmetric]
    using day by (simp cong: map_cong)
  then have "foldl (\<lambda>sm a. sm + a) 0 (advHistory db mt (d - 90) d) =
             (\<Sum>t \<in> set dates. breadth (universe db mt t))"
    using dist by (simp add: foldl_plus_sum_list sum_list_distinct_conv_sum_set)
  also have "\<dots> = (\<Sum>t = d - 90..d. breadth (universe db mt t))"
  proof (rule sum.mono_neutral_left [OF _ sub])
    show "finite {d - 90..d}" by simp
    show "\<forall>t \<in> {d - 90..d} - set dates. breadth (universe db mt t) = 0"
    proof
      fix t assume t: "t \<in> {d - 90..d} - set dates"
      then have "filter (\<lambda>r. tradeDate r = t) rows = []"
        unfolding set by (auto simp: filter_empty_conv)
      with t grp [of t] show "breadth (universe db mt t) = 0" by (simp add: breadth_Nil)
    qed
  qed
  finally show ?thesis by (simp add: breadthLine_def)
qed

text \<open>
  C7: for a given date, \<open>fetchMarketSpirit\<close> returns a reading; when the universe of the
  date is empty, score, adv and adLine are \<open>null\<close>; otherwise adv is the breadth, adLine the
  sum of the daily breadth over the last 90 days, and the score is the regime of the number
  of sub-scores that hold: Defense for 0 to 2, Selective for 3 or 4, Attack for 5 or 6.
\<close>

theorem market_spirit_score:
  "fetchMarketSpirit db mt (Some d) =
     Inr \<lparr> ms_tradeDate = d, ms_marketType = mt,
           score = (if universe db mt d = [] then None
                    else Some (regime (count_true (sub_scores db mt d)))),
           adv = (if universe db mt d = [] then None else Some (breadth (universe db mt d))),
           adLine = (if universe db mt d = [] then None else Some (breadthLine db mt d)) \<rparr>"
proof -
  have step: "fetchMarketSpirit db mt (Some d) =
      (if length (universe db mt d) = 0 then
         Inr \<lparr> ms_tradeDate = d, ms_marketType = mt, score = None, adv = None, adLine = None \<rparr>
       else
         Inr \<lparr> ms_tradeDate = d, ms_marketType = mt,
               score = Some (classify (scorePoints (breadth (universe db mt d))
                                         (breadthLine db mt d) (universe db mt d))),
               adv = Some (breadth (universe db mt d)),
               adLine = Some (breadthLine db mt d) \<rparr>)"
    by (simp only: fetchMarketSpirit_def query_date_def option.case sum.case Let_def
        universe_def [symmetric] advancing_declining advHistory_sum)
  show ?thesis
  proof (cases "universe db mt d = []")
    case True
    then show ?thesis unfolding step by simp
  next
    case False
    then show ?thesis unfolding step
      by (simp add: scorePoints_count classify_regime sub_scores_def majority_more_than_half Let_def)
  qed
qed

lemma spirit_db_breadth:
  "breadth (universe spirit_db ''STOCK'' t) = (if t = 100 then 1 else 0) + (if t = 50 then - 1 else 0)"
  by (simp add: universe_def spirit_db_def spirit_row_def blank_row_def breadth_def
      is_above_def is_below_def)

lemma spirit_db_breadthLine: "breadthLine spirit_db ''STOCK'' 100 = 0"
  by (simp add: breadthLine_def spirit_db_breadth sum.distrib)

theorem market_spirit_score_witness:
  "fetchMarketSpirit spirit_db ''STOCK'' (Some 100) =
     Inr \<lparr> ms_tradeDate = 100, ms_marketType = ''STOCK'', score = Some Selective,
           adv = Some 1, adLine = Some 0 \<rparr>
   \<and> fetchMarketSpirit spirit_db ''STOCK'' (Some 99) =
     Inr \<lparr> ms_tradeDate = 99, ms_marketType = ''STOCK'', score = None, adv = None,
           adLine = None \<rparr>"
proof -
  have u: "universe spirit_db ''STOCK'' 100 = take 3 spirit_db"
    by (simp add: universe_def spirit_db_def spirit_row_def blank_row_def)
  have n: "universe spirit_db ''STOCK'' 100 \<noteq> []"
    unfolding u by (simp add: spirit_db_def)
  have e: "universe spirit_db ''STOCK'' 99 = []"
    by (simp add: universe_def spirit_db_def spirit_row_def blank_row_def)
  have b: "breadth (universe spirit_db ''STOCK'' 100) = 1"
    by (simp add: spirit_db_breadth)
  have s: "sub_scores spirit_db ''STOCK'' 100 = [True, False, True, True, True, False]"
    unfolding sub_scores_def Let_def spirit_db_breadthLine b u
    by (simp add: spirit_db_def spirit_row_def blank_row_def more_than_half_def is_above_def
        is_below_def breadth_def)
  from market_spirit_score [of spirit_db "''STOCK''" 100]
    market_spirit_score [of spirit_db "''STOCK''" 99]
  show ?thesis
    by (simp add: s e b n spirit_db_breadthLine count_true_def regime_def)
qed

section \<open>Properties of fetchUptrendSymbols\<close>

lemma uptrend_where_qualifies:
  "uptrend_where d mt r \<longleftrightarrow> tradeDate r = d \<and> marketType r = Some mt \<and> qualifies r"
  by (auto simp: uptrend_where_def qualifies_def sql_ge_def sql_between_def sql_gt_def
      split: option.splits)

lemma set_uptrend_rows: "set (uptrend_rows db d mt) = {r \<in> set db. uptrend_where d mt r}"
  by (simp add: uptrend_rows_def)

lemma sorted_uptrend_rows:
  "sorted (map (\<lambda>r. (asc_nulls_last (ez r), symbol r)) (uptrend_rows db d mt))"
  by (simp add: uptrend_rows_def)

lemma sorted_uptrend_items:
  assumes "\<forall>r \<in> set (uptrend_rows db d mt). ez r \<noteq> None"
  shows "sorted (map (\<lambda>r. (Number_of (ez r), symbol r)) (uptrend_rows db d mt))"
proof -
  have "sorted_wrt (\<lambda>x y. (asc_nulls_last (ez x), symbol x) \<le> (asc_nulls_last (ez y), symbol y))
          (uptrend_rows db d mt)"
    using sorted_uptrend_rows [of db d mt] by (simp add: sorted_map)
  then have "sorted_wrt (\<lambda>x y. (Number_of (ez x), symbol x) \<le> (Number_of (ez y), symbol y))
          (uptrend_rows db d mt)"
  proof (rule sorted_wrt_mono_rel [rotated])
    fix x y
    assume x: "x \<in> set (uptrend_rows db d mt)" and y: "y \<in> set (uptrend_rows db d mt)"
      and le: "(asc_nulls_last (ez x), symbol x) \<le> (asc_nulls_last (ez y), symbol y)"
    from assms x obtain a where "ez x = Some a" by blast
    moreover from assms y obtain b where "ez y = Some b" by blast
    ultimately have "ez x = Some a" "ez y = Some b" .
    with le show "(Number_of (ez x), symbol x) \<le> (Number_of (ez y), symbol y)"
      by (auto simp: asc_nulls_last_def Number_of_def less_eq_prod_def less_prod_def)
  qed
  then show ?thesis by (simp add: sorted_map)
qed

text \<open>
  The job writes an \<open>ez\<close> at every index where the close and the \<open>sma20\<close> are finite and
  the \<open>sma20\<close> is not zero, and a qualifying row that was so written has its \<open>ez\<close>.
\<close>

lemma ez_series_present:
  assumes "i < length close"
  shows "ez_series close sma20Arr ! i \<noteq> None \<longleftrightarrow>
     valid_num (close ! i) \<and> valid_num (js_at sma20Arr i) \<and> fin_of (js_at sma20Arr i) \<noteq> 0"
proof (cases "close ! i")
  case None
  with assms show ?thesis by (simp add: ez_series_def valid_num_def)
next
  case c: (Some c)
  show ?thesis
  proof (cases "js_at sma20Arr i")
    case None
    with assms c show ?thesis by (simp add: ez_series_def valid_num_def)
  next
    case (Some m)
    with assms c show ?thesis
      by (cases c; cases m) (simp_all add: ez_series_def valid_num_def)
  qed
qed

lemma written_qualifies_ez:
  assumes "written r" and "qualifies r"
  shows "ez r \<noteq> None"
proof -
  from assms(2) obtain c s20 s50 s200 where
    v: "closingPrice r = Some c" "sma20 r = Some s20" "sma50 r = Some s50" "sma200 r = Some s200"
    and o: "s50 < s20" "s200 < s50"
    unfolding qualifies_def by blast
  from assms(1) v have "0 \<le> s200" by (simp add: written_def)
  with o have "s20 \<noteq> 0" by simp
  with assms(1) v show ?thesis by (simp add: written_def)
qed

text \<open>
  C6: for a given date, a symbol is returned exactly when the table has a row of it for
  that date and market type whose turnover10, rsi14, macdHist, closingPrice, sma20, sma50
  and sma200 are all present with \<open>turnover10 \<ge> 1500000\<close>, \<open>60 \<le> rsi14 \<le> 70\<close>,
  \<open>macdHist \<ge> 0\<close> and \<open>close > sma20 > sma50 > sma200\<close>; and, the rows of the table being
  as the refresh job writes them, the items are sorted by ez ascending, ties by symbol
  ascending.
\<close>

theorem uptrend_screen:
  "\<exists>resp. fetchUptrendSymbols db mt (Some d) = Inr resp
     \<and> up_tradeDate resp = d \<and> up_count resp = length (up_items resp)
     \<and> (\<forall>s. s \<in> fst ` set (up_items resp) \<longleftrightarrow>
             (\<exists>r \<in> set db. symbol r = s \<and> tradeDate r = d \<and> marketType r = Some mt \<and> qualifies r))
     \<and> (list_all written db \<longrightarrow> sorted (map (\<lambda>it. (snd it, fst it)) (up_items resp)))"
proof -
  let ?rows = "uptrend_rows db d mt"
  let ?items = "map (\<lambda>r. (symbol r, Number_of (ez r))) ?rows"
  let ?resp = "\<lparr> up_tradeDate = d, up_marketType = mt, up_count = length ?items, up_items = ?items \<rparr>"
  have r: "fetchUptrendSymbols db mt (Some d) = Inr ?resp"
    by (simp add: fetchUptrendSymbols_def query_date_def Let_def)
  have m: "s \<in> fst ` set ?items \<longleftrightarrow>
        (\<exists>r \<in> set db. symbol r = s \<and> tradeDate r = d \<and> marketType r = Some mt \<and> qualifies r)" for s
    by (auto simp: set_uptrend_rows uptrend_where_qualifies image_iff)
  have s: "sorted (map (\<lambda>it. (snd it, fst it)) ?items)" if "list_all written db"
  proof -
    have "ez r \<noteq> None" if "r \<in> set ?rows" for r
    proof -
      from that have "r \<in> set db" and "qualifies r"
        by (simp_all add: set_uptrend_rows uptrend_where_qualifies)
      with \<open>list_all written db\<close> show ?thesis
        by (intro written_qualifies_ez) (simp_all add: list_all_iff)
    qed
    then have "\<forall>r \<in> set ?rows. ez r \<noteq> None" by blast
    from sorted_uptrend_items [OF this] show ?thesis by (simp add: comp_def)
  qed
  from r m s show ?thesis by (intro exI [of _ ?resp]) simp
qed

theorem uptrend_screen_witness:
  "fetchUptrendSymbols uptrend_db ''STOCK'' (Some 100) =
     Inr \<lparr> up_tradeDate = 100, up_marketType = ''STOCK'', up_count = 3,
           up_items = [(''BBB'', 5), (''DDD'', 5), (''AAA'', 10)] \<rparr>
   \<and> sorted (map (\<lambda>it. (snd it, fst it)) [(''BBB'', 5::real), (''DDD'', 5), (''AAA'', 10)])"
proof -
  have w: "list_all written uptrend_db"
    by (simp add: uptrend_db_def written_def uptrend_row_def blank_row_def)
  have f: "fetchUptrendSymbols uptrend_db ''STOCK'' (Some 100) =
     Inr \<lparr> up_tradeDate = 100, up_marketType = ''STOCK'', up_count = 3,
           up_items = [(''BBB'', 5), (''DDD'', 5), (''AAA'', 10)] \<rparr>"
    by (simp add: fetchUptrendSymbols_def query_date_def uptrend_rows_def uptrend_where_def
      sql_ge_def sql_between_def sql_gt_def asc_nulls_last_def Number_of_def uptrend_db_def
      uptrend_row_def blank_row_def less_eq_prod_def less_prod_def)
  from uptrend_screen [of uptrend_db "''STOCK''" 100] w obtain resp
    where "fetchUptrendSymbols uptrend_db ''STOCK'' (Some 100) = Inr resp"
      and "sorted (map (\<lambda>it. (snd it, fst it)) (up_items resp))"
    by blast
  with f show ?thesis by auto
qed

section \<open>Properties of the aggregated candlesticks\<close>














section \<open>Properties of the refresh job\<close>

lemma same_ingested_set_indicators: "same_ingested r (set_indicators ind r)"
  by (simp add: same_ingested_def set_indicators_def)

lemma same_ingested_refl: "same_ingested r r"
  by (simp add: same_ingested_def)

lemma snapshot_set_indicators: "snapshot (set_indicators ind r) = ind"
  by (simp add: snapshot_def set_indicators_def)

lemma set_indicators_twice: "set_indicators a (set_indicators b r) = set_indicators a r"
  by (simp add: set_indicators_def)

lemma insort_key_map_keep:
  "(\<And>x. k (u x) = k x) \<Longrightarrow> insort_key k (u x) (map u ys) = map u (insort_key k x ys)"
  by (induction ys) simp_all

lemma sort_key_map_keep:
  "(\<And>x. k (u x) = k x) \<Longrightarrow> sort_key k (map u xs) = map u (sort_key k xs)"
  by (induction xs) (simp_all add: insort_key_map_keep)

lemma window_rows_map:
  assumes "\<And>r. same_ingested r (u r)"
  shows "window_rows (map u db) s d f = map u (window_rows db s d f)"
proof -
  have k: "tradeDate (u r) = tradeDate r" "symbol (u r) = symbol r" for r
    using assms [of r] by (simp_all add: same_ingested_def)
  show ?thesis
    by (simp add: window_rows_def filter_map comp_def k sort_key_map_keep)
qed

lemma getTradingIndicators_map:
  assumes "\<And>r. same_ingested r (u r)"
  shows "getTradingIndicators (map u db) s d f = getTradingIndicators db s d f"
proof -
  have k: "closingPrice (u r) = closingPrice r" "high (u r) = high r" "low (u r) = low r"
    "volume (u r) = volume r" "turnover (u r) = turnover r" for r
    using assms [of r] by (simp_all add: same_ingested_def)
  show ?thesis
    by (simp add: getTradingIndicators_def window_rows_map [OF assms] Let_def comp_def k)
qed

lemma same_ingested_refresh_row: "same_ingested r (refresh_row db d S r)"
  by (simp add: refresh_row_def same_ingested_set_indicators same_ingested_refl)

lemma update_row_found:
  assumes "\<exists>r \<in> set db. symbol r = s \<and> tradeDate r = d"
  shows "update_row db s d ind =
     Inr (map (\<lambda>r. if symbol r = s \<and> tradeDate r = d then set_indicators ind r else r) db)"
  using assms by (simp add: update_row_def list_ex_iff)

lemma update_symbols_refresh:
  assumes "set syms \<subseteq> symbol ` {r \<in> set db. tradeDate r = d}"
  shows "update_symbols d (d - 450) syms (map (refresh_row db d S) db, k) =
           Inr (map (refresh_row db d (S \<union> set syms)) db, k + length syms)"
  using assms
proof (induction syms arbitrary: S k)
  case Nil
  show ?case by simp
next
  case (Cons s syms)
  let ?cur = "map (refresh_row db d S) db"
  let ?ind = "getTradingIndicators db s d (d - 450)"
  have keys: "symbol (refresh_row db d S r) = symbol r" "tradeDate (refresh_row db d S r) = tradeDate r"
    for r S
    using same_ingested_refresh_row [of r db d S] by (simp_all add: same_ingested_def)
  have ind: "getTradingIndicators ?cur s d (d - 450) = ?ind"
    by (rule getTradingIndicators_map) (rule same_ingested_refresh_row)
  from Cons.prems obtain r0 where "r0 \<in> set db" "symbol r0 = s" "tradeDate r0 = d" by auto
  then have "\<exists>r \<in> set ?cur. symbol r = s \<and> tradeDate r = d"
    by (auto simp: keys intro!: bexI [of _ r0])
  then have upd: "update_row ?cur s d ?ind =
      Inr (map (\<lambda>r. if symbol r = s \<and> tradeDate r = d then set_indicators ?ind r else r) ?cur)"
    by (rule update_row_found)
  have step: "map (\<lambda>r. if symbol r = s \<and> tradeDate r = d then set_indicators ?ind r else r) ?cur =
              map (refresh_row db d (insert s S)) db"
    by (auto simp: keys) (auto simp: refresh_row_def set_indicators_twice)
  from Cons.prems have rest: "set syms \<subseteq> symbol ` {r \<in> set db. tradeDate r = d}" by simp
  have "update_symbols d (d - 450) (s # syms) (?cur, k) =
          update_symbols d (d - 450) syms (map (refresh_row db d (insert s S)) db, k + 1)"
    by (simp only: update_symbols.simps fst_conv snd_conv ind upd step sum.case)
  with Cons.IH [OF rest, of "insert s S" "k + 1"] show ?case by simp
qed

lemma refresh_row_empty: "map (refresh_row db d {}) db = db"
  by (simp add: refresh_row_def map_idI)

lemma updateTradingDayIndicators_refreshed:
  "updateTradingDayIndicators db d mt = Inr (refreshed db d mt, length (traded_symbols db d mt))"
proof -
  have "set (traded_symbols db d mt) \<subseteq> symbol ` {r \<in> set db. tradeDate r = d}"
    by (auto simp: traded_symbols_def)
  from update_symbols_refresh [OF this, of "{}" 0] show ?thesis
    by (simp add: updateTradingDayIndicators_def LOOKBACK_DAYS_def Let_def refresh_row_empty
        refreshed_def traded_symbols_def)
qed

lemma traded_symbols_refreshed: "traded_symbols (refreshed db d mt) d mt = traded_symbols db d mt"
proof -
  have k: "symbol (refresh_row db d S r) = symbol r" "tradeDate (refresh_row db d S r) = tradeDate r"
    "marketType (refresh_row db d S r) = marketType r" for r S
    using same_ingested_refresh_row [of r db d S] by (simp_all add: same_ingested_def)
  show ?thesis
    by (simp add: traded_symbols_def refreshed_def filter_map comp_def k)
qed

lemma refreshed_idem: "refreshed (refreshed db d mt) d mt = refreshed db d mt"
proof -
  let ?S = "set (traded_symbols db d mt)"
  have g: "getTradingIndicators (refreshed db d mt) s d f = getTradingIndicators db s d f" for s f
    unfolding refreshed_def
    by (rule getTradingIndicators_map) (rule same_ingested_refresh_row)
  have k: "symbol (refresh_row db d S r) = symbol r" "tradeDate (refresh_row db d S r) = tradeDate r"
    for r S
    using same_ingested_refresh_row [of r db d S] by (simp_all add: same_ingested_def)
  have "refresh_row (refreshed db d mt) d ?S (refresh_row db d ?S r) = refresh_row db d ?S r" for r
    by (simp add: refresh_row_def [of "refreshed db d mt"] g k)
       (simp add: refresh_row_def set_indicators_twice)
  then show ?thesis
    by (simp add: refreshed_def [of "refreshed db d mt"] traded_symbols_refreshed)
       (simp add: refreshed_def)
qed

lemma refreshed_nth:
  "i < length db \<Longrightarrow>
     refreshed db d mt ! i = refresh_row db d (set (traded_symbols db d mt)) (db ! i)"
  by (simp add: refreshed_def)

text \<open>
  C8: the refresh always succeeds; the snapshot it writes for a row of the date and market
  type is computed from the closing price, high, low, volume and turnover of the rows of
  the same symbol in the 450-day window of the table as it was before the job; a second
  run on the result writes the same table and returns the same count.
\<close>

theorem refresh_idempotent:
  "\<exists>db' n. updateTradingDayIndicators db d mt = Inr (db', n)
     \<and> updateTradingDayIndicators db' d mt = Inr (db', n)
     \<and> n = length (filter (\<lambda>r. tradeDate r = d \<and> marketType r = Some mt) db)
     \<and> length db' = length db
     \<and> (\<forall>i < length db. tradeDate (db ! i) = d \<and> marketType (db ! i) = Some mt \<longrightarrow>
           snapshot (db' ! i) =
             (let w = window_rows db (symbol (db ! i)) d (d - 450)
              in indicators_of_series (map closingPrice w) (map high w) (map low w)
                   (map (\<lambda>r. bigint_to_number (volume r)) w)
                   (map (\<lambda>r. bigint_to_number (turnover r)) w)))"
proof -
  let ?db' = "refreshed db d mt"
  let ?n = "length (traded_symbols db d mt)"
  have 1: "updateTradingDayIndicators db d mt = Inr (?db', ?n)"
    by (rule updateTradingDayIndicators_refreshed)
  have 2: "updateTradingDayIndicators ?db' d mt = Inr (?db', ?n)"
    using updateTradingDayIndicators_refreshed [of ?db' d mt]
    by (simp add: refreshed_idem traded_symbols_refreshed)
  have 3: "?n = length (filter (\<lambda>r. tradeDate r = d \<and> marketType r = Some mt) db)"
    by (simp add: traded_symbols_def)
  have 4: "length ?db' = length db" by (simp add: refreshed_def)
  have 5: "snapshot (?db' ! i) =
             (let w = window_rows db (symbol (db ! i)) d (d - 450)
              in indicators_of_series (map closingPrice w) (map high w) (map low w)
                   (map (\<lambda>r. bigint_to_number (volume r)) w)
                   (map (\<lambda>r. bigint_to_number (turnover r)) w))"
    if "i < length db" "tradeDate (db ! i) = d" "marketType (db ! i) = Some mt" for i
  proof -
    from that have "symbol (db ! i) \<in> set (traded_symbols db d mt)"
      by (auto simp: traded_symbols_def intro!: image_eqI [of _ _ "db ! i"])
    with that show ?thesis
      by (simp add: refreshed_nth refresh_row_def snapshot_set_indicators getTradingIndicators_def)
  qed
  from 1 2 3 4 5 show ?thesis by blast
qed

theorem refresh_idempotent_witness:
  "\<exists>db' n. updateTradingDayIndicators refresh_db 100 ''STOCK'' = Inr (db', n)
     \<and> updateTradingDayIndicators db' 100 ''STOCK'' = Inr (db', n) \<and> n = 1 \<and> length db' = 3
     \<and> snapshot (db' ! 0) =
         indicators_of_series [Some (Fin 11), Some (Fin 12)] [Some (Fin 12), Some (Fin 13)]
           [Some (Fin 10), Some (Fin 11)] [Some (Fin 1000), Some (Fin 1000)]
           [Some (Fin 50000), Some (Fin 50000)]"
proof -
  have w: "window_rows refresh_db ''AAA'' 100 (100 - 450) =
             [bar_row ''AAA'' 99 ''STOCK'' 11, bar_row ''AAA'' 100 ''STOCK'' 12]"
    by code_simp
  have k: "refresh_db ! 0 = bar_row ''AAA'' 100 ''STOCK'' 12" "length refresh_db = 3"
    by (simp_all add: refresh_db_def)
  have f: "symbol (bar_row s d mt c) = s" "tradeDate (bar_row s d mt c) = d"
    "marketType (bar_row s d mt c) = Some mt" "closingPrice (bar_row s d mt c) = Some (Fin c)"
    "high (bar_row s d mt c) = Some (Fin (c + 1))" "low (bar_row s d mt c) = Some (Fin (c - 1))"
    "volume (bar_row s d mt c) = Some 1000" "turnover (bar_row s d mt c) = Some 50000"
    for s d mt c
    by (simp_all add: bar_row_def blank_row_def)
  have n: "length (filter (\<lambda>r. tradeDate r = 100 \<and> marketType r = Some ''STOCK'') refresh_db) = 1"
    by (simp add: refresh_db_def f)
  from refresh_idempotent [of refresh_db 100 "''STOCK''"]
  obtain db' n where r: "updateTradingDayIndicators refresh_db 100 ''STOCK'' = Inr (db', n)"
    "updateTradingDayIndicators db' 100 ''STOCK'' = Inr (db', n)"
    "n = length (filter (\<lambda>r. tradeDate r = 100 \<and> marketType r = Some ''STOCK'') refresh_db)"
    "length db' = length refresh_db"
    and s: "\<forall>i < length refresh_db.
        tradeDate (refresh_db ! i) = 100 \<and> marketType (refresh_db ! i) = Some ''STOCK'' \<longrightarrow>
        snapshot (db' ! i) =
          (let w = window_rows refresh_db (symbol (refresh_db ! i)) 100 (100 - 450)
           in indicators_of_series (map closingPrice w) (map high w) (map low w)
                (map (\<lambda>r. bigint_to_number (volume r)) w)
                (map (\<lambda>r. bigint_to_number (turnover r)) w))"
    by blast
  from s have "snapshot (db' ! 0) =
         indicators_of_series [Some (Fin 11), Some (Fin 12)] [Some (Fin 12), Some (Fin 13)]
           [Some (Fin 10), Some (Fin 11)] [Some (Fin 1000), Some (Fin 1000)]
           [Some (Fin 50000), Some (Fin 50000)]"
    by (simp add: k f w [simplified] Let_def bigint_to_number_def round_eval)
  with r n k show ?thesis by auto
qed

text \<open>
  C9: a refresh leaves the number and order of the rows, every ingested column of every
  row, and every row of another date or of a symbol not traded in the market type on the
  date, as they were: it writes indicator columns of rows of the target date only.
\<close>

theorem refresh_frame:
  assumes "updateTradingDayIndicators db d mt = Inr (db', n)"
  shows "length db' = length db
     \<and> (\<forall>i < length db.
           same_ingested (db ! i) (db' ! i)
           \<and> (tradeDate (db ! i) \<noteq> d \<longrightarrow> db' ! i = db ! i)
           \<and> (symbol (db ! i) \<notin> set (traded_symbols db d mt) \<longrightarrow> db' ! i = db ! i))"
proof -
  from assms have db': "db' = refreshed db d mt"
    by (simp add: updateTradingDayIndicators_refreshed)
  show ?thesis
    unfolding db'
    by (auto simp: refreshed_nth same_ingested_refresh_row) (simp_all add: refreshed_def refresh_row_def)
qed

theorem refresh_frame_witness:
  "length (refreshed refresh_db 100 ''STOCK'') = 3
   \<and> same_ingested (refresh_db ! 0) (refreshed refresh_db 100 ''STOCK'' ! 0)
   \<and> refreshed refresh_db 100 ''STOCK'' ! 1 = refresh_db ! 1
   \<and> refreshed refresh_db 100 ''STOCK'' ! 2 = refresh_db ! 2"
proof -
  have l: "length refresh_db = 3" by (simp add: refresh_db_def)
  have d: "tradeDate (refresh_db ! 1) \<noteq> 100"
    by (simp add: refresh_db_def bar_row_def blank_row_def)
  have s: "symbol (refresh_db ! 2) \<notin> set (traded_symbols refresh_db 100 ''STOCK'')"
    by (simp add: traded_symbols_def refresh_db_def bar_row_def blank_row_def)
  from refresh_frame [OF updateTradingDayIndicators_refreshed, of refresh_db 100 "''STOCK''"]
  show ?thesis using l d s by simp
qed

end
